theory Spec2Isabelle
  imports Main
begin

section \<open>The schema (shared/schema.ts)\<close>

text \<open>
  Timestamps are milliseconds on one clock. A nullable column is an \<open>option\<close>; a
  \<open>serial\<close> primary key is a natural number handed out by a per-table counter.
\<close>

type_synonym timestamp = nat

record user_settings =
  us_id :: nat
  us_userId :: string
  us_defaultTone :: string
  us_language :: string
  us_autoReplyEnabled :: bool
  us_lastCheckTime :: "timestamp option"
  us_createdAt :: "timestamp option"
  us_updatedAt :: "timestamp option"

record platform =
  pl_id :: nat
  pl_userId :: string
  pl_platformName :: string
  pl_platformId :: string
  pl_accessToken :: "string option"
  pl_refreshToken :: "string option"
  pl_tokenExpiry :: "timestamp option"
  pl_createdAt :: "timestamp option"
  pl_updatedAt :: "timestamp option"

record review =
  rv_id :: nat
  rv_userId :: string
  rv_platformId :: "nat option"
  rv_externalReviewId :: "string option"
  rv_customerName :: "string option"
  rv_reviewText :: string
  rv_starRating :: int
  rv_responseText :: "string option"
  rv_responseTone :: string
  rv_respondedAt :: "timestamp option"
  rv_autoResponded :: "bool option"
  rv_createdAt :: "timestamp option"

record reply_template =
  rt_id :: nat
  rt_userId :: string
  rt_name :: string
  rt_content :: string
  rt_tone :: string
  rt_starRating :: "int option"
  rt_createdAt :: "timestamp option"
  rt_updatedAt :: "timestamp option"

text \<open>
  \<open>InsertUserSettings\<close> and \<open>InsertReview\<close>: the insert schemas without \<open>id\<close>,
  \<open>createdAt\<close>, \<open>updatedAt\<close>. A column with a default or a nullable column may be left
  out (\<open>None\<close>); for a nullable column \<open>Some None\<close> is an explicit \<open>null\<close>.
  \<open>Partial<InsertUserSettings>\<close> makes \<open>userId\<close> optional as well.
\<close>

record insert_user_settings =
  ius_userId :: string
  ius_defaultTone :: "string option"
  ius_language :: "string option"
  ius_autoReplyEnabled :: "bool option"
  ius_lastCheckTime :: "timestamp option option"

record partial_user_settings =
  pus_userId :: "string option"
  pus_defaultTone :: "string option"
  pus_language :: "string option"
  pus_autoReplyEnabled :: "bool option"
  pus_lastCheckTime :: "timestamp option option"

record insert_review =
  ir_userId :: string
  ir_platformId :: "nat option"
  ir_externalReviewId :: "string option"
  ir_customerName :: "string option"
  ir_reviewText :: string
  ir_starRating :: int
  ir_responseText :: "string option"
  ir_responseTone :: string
  ir_respondedAt :: "timestamp option"
  ir_autoResponded :: "bool option"

section \<open>The world the server runs in\<close>

text \<open>
  The database tables, the module-level set \<open>processingUsers\<close>, the clock that
  \<open>new Date()\<close> and the database's \<open>now()\<close> read, and the console lines that mark the
  start of a pipeline run.
\<close>

record world =
  clock :: timestamp
  userSettings_rows :: "user_settings list"
  userSettings_serial :: nat
  platforms_rows :: "platform list"
  reviews_rows :: "review list"
  reviews_serial :: nat
  replyTemplates_rows :: "reply_template list"
  processingUsers :: "string set"
  console :: "string list"

text \<open>
  What is thrown: a JavaScript \<open>Error\<close> with its message, or the rejection of a database
  statement (connection loss, constraint violation).
\<close>

datatype error = Error string | DbError

text \<open>
  Every awaited call is answered by the environment: it takes some time, and a database
  statement may be rejected. The text generator either throws or yields the value of
  \<open>response.choices[0]?.message?.content?.trim()\<close>, which may be undefined.
\<close>

record db_call =
  latency :: nat
  rejects :: bool

datatype api_result = ApiError | ApiContent "string option"

record api_call =
  api_latency :: nat
  api_result :: api_result

definition elapse :: "nat \<Rightarrow> world \<Rightarrow> world" where
  "elapse d w = w\<lparr>clock := clock w + d\<rparr>"

section \<open>The storage layer (DatabaseStorage)\<close>

definition getUserSettings ::
  "db_call \<Rightarrow> world \<Rightarrow> string \<Rightarrow> (error + user_settings option) \<times> world" where
  "getUserSettings c w userId =
     (let w1 = elapse (latency c) w in
      if rejects c then (Inl DbError, w1)
      else (Inr (case filter (\<lambda>s. us_userId s = userId) (userSettings_rows w1) of
                   [] \<Rightarrow> None
                 | settings # _ \<Rightarrow> Some settings), w1))"

definition createUserSettings ::
  "db_call \<Rightarrow> world \<Rightarrow> insert_user_settings \<Rightarrow> (error + user_settings) \<times> world" where
  "createUserSettings c w settings =
     (let updatedAt = clock w;
          w1 = elapse (latency c) w in
      if rejects c then (Inl DbError, w1)
      else
        let newSettings = \<lparr>
              us_id = Suc (userSettings_serial w1),
              us_userId = ius_userId settings,
              us_defaultTone = (case ius_defaultTone settings of None \<Rightarrow> ''Professional'' | Some t \<Rightarrow> t),
              us_language = (case ius_language settings of None \<Rightarrow> ''English'' | Some l \<Rightarrow> l),
              us_autoReplyEnabled = (case ius_autoReplyEnabled settings of None \<Rightarrow> False | Some b \<Rightarrow> b),
              us_lastCheckTime = (case ius_lastCheckTime settings of None \<Rightarrow> Some (clock w1) | Some t \<Rightarrow> t),
              us_createdAt = Some (clock w1),
              us_updatedAt = Some updatedAt \<rparr>
        in (Inr newSettings,
            w1\<lparr>userSettings_rows := userSettings_rows w1 @ [newSettings],
               userSettings_serial := Suc (userSettings_serial w1)\<rparr>))"

text \<open>\<open>.set({...settings, updatedAt})\<close>: a key that is present overwrites its column.\<close>

definition set_user_settings ::
  "partial_user_settings \<Rightarrow> timestamp \<Rightarrow> user_settings \<Rightarrow> user_settings" where
  "set_user_settings settings updatedAt s =
     s\<lparr>us_userId := (case pus_userId settings of None \<Rightarrow> us_userId s | Some u \<Rightarrow> u),
       us_defaultTone := (case pus_defaultTone settings of None \<Rightarrow> us_defaultTone s | Some t \<Rightarrow> t),
       us_language := (case pus_language settings of None \<Rightarrow> us_language s | Some l \<Rightarrow> l),
       us_autoReplyEnabled :=
         (case pus_autoReplyEnabled settings of None \<Rightarrow> us_autoReplyEnabled s | Some b \<Rightarrow> b),
       us_lastCheckTime := (case pus_lastCheckTime settings of None \<Rightarrow> us_lastCheckTime s | Some t \<Rightarrow> t),
       us_updatedAt := Some updatedAt\<rparr>"

text \<open>JavaScript's \<open>a || b\<close> on an optional string: undefined and the empty string are falsy.\<close>

definition or_string :: "string option \<Rightarrow> string \<Rightarrow> string" where
  "or_string a b = (case a of None \<Rightarrow> b | Some s \<Rightarrow> if s = [] then b else s)"

text \<open>
  \<open>updateUserSettings\<close> issues the UPDATE (answered by \<open>cu\<close>) and, when it returned no
  row, the INSERT of \<open>createUserSettings\<close> (answered by \<open>ci\<close>).
\<close>

definition updateUserSettings ::
  "db_call \<Rightarrow> db_call \<Rightarrow> world \<Rightarrow> string \<Rightarrow> partial_user_settings
     \<Rightarrow> (error + user_settings) \<times> world" where
  "updateUserSettings cu ci w userId settings =
     (let updatedAt = clock w;
          w1 = elapse (latency cu) w in
      if rejects cu then (Inl DbError, w1)
      else
        let w2 = w1\<lparr>userSettings_rows :=
                     map (\<lambda>s. if us_userId s = userId then set_user_settings settings updatedAt s else s)
                       (userSettings_rows w1)\<rparr>
        in case map (set_user_settings settings updatedAt)
                  (filter (\<lambda>s. us_userId s = userId) (userSettings_rows w1)) of
             updatedSettings # _ \<Rightarrow> (Inr updatedSettings, w2)
           | [] \<Rightarrow>
               createUserSettings ci w2 \<lparr>
                 ius_userId = userId,
                 ius_defaultTone = Some (or_string (pus_defaultTone settings) ''Professional''),
                 ius_language = Some (or_string (pus_language settings) ''English''),
                 ius_autoReplyEnabled =
                   Some (case pus_autoReplyEnabled settings of None \<Rightarrow> False | Some b \<Rightarrow> b),
                 ius_lastCheckTime =
                   Some (Some (case pus_lastCheckTime settings of
                                 Some (Some t) \<Rightarrow> t
                               | _ \<Rightarrow> clock w2)) \<rparr>)"

definition getPlatforms ::
  "db_call \<Rightarrow> world \<Rightarrow> string \<Rightarrow> (error + platform list) \<times> world" where
  "getPlatforms c w userId =
     (let w1 = elapse (latency c) w in
      if rejects c then (Inl DbError, w1)
      else (Inr (filter (\<lambda>p. pl_userId p = userId) (platforms_rows w1)), w1))"


text \<open>
  \<open>reviews.platform_id\<close> is declared \<open>references(() => platforms.id)\<close> with no action on
  delete: the database refuses to delete a platform row that a review row points at.
  No column references \<open>reply_templates\<close>.
\<close>

definition referenced_platform :: "world \<Rightarrow> int \<Rightarrow> bool" where
  "referenced_platform w i \<longleftrightarrow>
     (\<exists>p \<in> set (platforms_rows w). int (pl_id p) = i) \<and>
     (\<exists>r \<in> set (reviews_rows w). map_option int (rv_platformId r) = Some i)"



text \<open>
  The existence query of the pipeline,
  \<open>db.query.reviews.findMany({where: and(eq(userId), eq(externalReviewId))})\<close>.
\<close>

definition matching :: "string \<Rightarrow> string \<Rightarrow> world \<Rightarrow> review list" where
  "matching userId ext w =
     filter (\<lambda>r. rv_userId r = userId \<and> rv_externalReviewId r = Some ext) (reviews_rows w)"

definition findMany ::
  "db_call \<Rightarrow> world \<Rightarrow> string \<Rightarrow> string \<Rightarrow> (error + review list) \<times> world" where
  "findMany c w userId ext =
     (let w1 = elapse (latency c) w in
      if rejects c then (Inl DbError, w1) else (Inr (matching userId ext w1), w1))"

definition createReview ::
  "db_call \<Rightarrow> world \<Rightarrow> insert_review \<Rightarrow> (error + review) \<times> world" where
  "createReview c w reviewData =
     (let w1 = elapse (latency c) w in
      if rejects c then (Inl DbError, w1)
      else
        let r = \<lparr>
              rv_id = Suc (reviews_serial w1),
              rv_userId = ir_userId reviewData,
              rv_platformId = ir_platformId reviewData,
              rv_externalReviewId = ir_externalReviewId reviewData,
              rv_customerName = ir_customerName reviewData,
              rv_reviewText = ir_reviewText reviewData,
              rv_starRating = ir_starRating reviewData,
              rv_responseText = ir_responseText reviewData,
              rv_responseTone = ir_responseTone reviewData,
              rv_respondedAt = ir_respondedAt reviewData,
              rv_autoResponded =
                (case ir_autoResponded reviewData of None \<Rightarrow> Some False | Some b \<Rightarrow> Some b),
              rv_createdAt = Some (clock w1) \<rparr>
        in (Inr r, w1\<lparr>reviews_rows := reviews_rows w1 @ [r],
                       reviews_serial := Suc (reviews_serial w1)\<rparr>))"

section \<open>The response generator (openai.ts)\<close>

datatype sentiment = Positive | Neutral | Negative

datatype ToneType = Friendly | Professional | Apologetic | Enthusiastic

definition validTones :: "string list" where
  "validTones = [''Friendly'', ''Professional'', ''Apologetic'', ''Enthusiastic'']"

fun tone_name :: "ToneType \<Rightarrow> string" where
  "tone_name Friendly = ''Friendly''"
| "tone_name Professional = ''Professional''"
| "tone_name Apologetic = ''Apologetic''"
| "tone_name Enthusiastic = ''Enthusiastic''"

fun fallbackResponses :: "ToneType \<Rightarrow> sentiment \<Rightarrow> string" where
  "fallbackResponses Friendly Positive = ''Thank you so much for your wonderful feedback! We're thrilled that you had a great experience with us. Your support means a lot to our team, and we look forward to serving you again soon!''"
| "fallbackResponses Friendly Neutral = ''Thanks for sharing your thoughts with us! We appreciate your feedback and will use it to improve our service. We hope to see you again and provide you with an even better experience next time!''"
| "fallbackResponses Friendly Negative = ''We're really sorry to hear about your experience. Thank you for letting us know, as your feedback helps us improve. We'd love a chance to make things right for you. Please reach out to us directly so we can address your concerns.''"
| "fallbackResponses Professional Positive = ''Thank you for your positive review. We appreciate your business and your feedback regarding our services. We strive to maintain high standards and are pleased that your experience reflected this commitment. We look forward to serving you again.''"
| "fallbackResponses Professional Neutral = ''Thank you for your feedback. We value your input as it helps us improve our services. We have noted your comments and will consider them as we continuously work to enhance the customer experience. We appreciate your business.''"
| "fallbackResponses Professional Negative = ''We sincerely apologize for the inconvenience you experienced. We take all feedback seriously and would like to address your concerns. Please contact our customer service team directly so we can resolve these issues promptly and effectively.''"
| "fallbackResponses Apologetic Positive = ''We're truly grateful for your kind review, though we always strive to do even better. Thank you for taking the time to share your positive experience. We appreciate your support and look forward to serving you again soon.''"
| "fallbackResponses Apologetic Neutral = ''Thank you for your feedback. We apologize if any aspect of your experience didn't meet your expectations. We're constantly working to improve, and your comments will help us do better. We value your business and hope to better serve you next time.''"
| "fallbackResponses Apologetic Negative = ''We deeply apologize for the disappointing experience you had. This falls well short of the standard we aim to provide. Your feedback is invaluable, and we take full responsibility. Please contact us directly so we can address your concerns and make things right.''"
| "fallbackResponses Enthusiastic Positive = ''Wow! Thank you so much for this amazing review! We're absolutely thrilled that you had such a wonderful experience with us! Your feedback makes our day, and we can't wait to welcome you back again soon! You're awesome!''"
| "fallbackResponses Enthusiastic Neutral = ''Thanks for sharing your feedback with us! We're excited to hear from you and appreciate you taking the time to let us know about your experience! We're always looking to improve, and we hope to wow you even more on your next visit!''"
| "fallbackResponses Enthusiastic Negative = ''Oh no! We're so sorry to hear about your experience! This definitely isn't what we aim for, and we're eager to make things right! Please reach out to us directly - we're super committed to turning this around and earning back your trust!''"

text \<open>
  \<open>let sentiment = "neutral"; if (starRating >= 4) sentiment = "positive";
  if (starRating <= 2) sentiment = "negative";\<close>
\<close>

definition sentiment_of :: "int \<Rightarrow> sentiment" where
  "sentiment_of starRating =
     (let s0 = Neutral;
          s1 = (if starRating \<ge> 4 then Positive else s0);
          s2 = (if starRating \<le> 2 then Negative else s1)
      in s2)"

text \<open>
  \<open>validTones.includes(tone) ? (tone as ToneType) : "Professional"\<close>. The inner chain is
  the cast of a string that is one of the four literals.
\<close>

definition toneToUse :: "string \<Rightarrow> ToneType" where
  "toneToUse tone =
     (if tone \<in> set validTones
      then (if tone = ''Friendly'' then Friendly
            else if tone = ''Apologetic'' then Apologetic
            else if tone = ''Enthusiastic'' then Enthusiastic
            else Professional)
      else Professional)"

definition default_response :: string where
  "default_response = ''Thank you for your feedback. We appreciate you taking the time to share your experience with us.''"

text \<open>
  \<open>generateResponse\<close>: the prompt is built from the four arguments and sent; the model
  keeps what comes back. The \<open>try\<close> block returns the content or the default sentence,
  the \<open>catch\<close> block returns the fallback template.
\<close>

definition generateResponse ::
  "api_call \<Rightarrow> world \<Rightarrow> string \<Rightarrow> int \<Rightarrow> string \<Rightarrow> string \<Rightarrow> (error + string) \<times> world" where
  "generateResponse c w reviewText starRating tone language =
     (let w1 = elapse (api_latency c) w in
      case api_result c of
        ApiContent content \<Rightarrow> (Inr (or_string content default_response), w1)
      | ApiError \<Rightarrow> (Inr (fallbackResponses (toneToUse tone) (sentiment_of starRating)), w1))"

section \<open>The per-account pipeline (AutomationService.processUserReviews)\<close>

text \<open>
  A record of \<open>simulateNewReviews\<close>. The simulator draws its records at random; the
  environment supplies, for the platform at each position of the account's platform
  list, what the fetch returned: the candidates, each with the answers to the three calls
  made for it. The fetch stands for the call of a platform's API, so it may also fail
  (\<open>Inl\<close>), which is what the \<open>catch\<close> block of the platform loop handles;
  \<open>simulateNewReviews\<close> itself never throws.
\<close>

record sim_review =
  sr_customerName :: string
  sr_reviewText :: string
  sr_starRating :: int
  sr_externalReviewId :: string
  sr_platformName :: string

record review_env =
  findMany_call :: db_call
  generate_call :: api_call
  createReview_call :: db_call

record account_env =
  getPlatforms_call :: db_call
  getUserSettings_call :: db_call
  simulateNewReviews_out :: "nat \<Rightarrow> error + (sim_review \<times> review_env) list"
  updateUserSettings_call :: db_call
  createUserSettings_call :: db_call

text \<open>The body of the loop over \<open>newReviews\<close>, with its \<open>try\<close>/\<open>catch\<close>.\<close>

definition processReview ::
  "string \<Rightarrow> string \<Rightarrow> string \<Rightarrow> platform \<Rightarrow> sim_review \<times> review_env \<Rightarrow> world \<Rightarrow> world" where
  "processReview userId defaultTone language platform cand w =
     (let review = fst cand; env = snd cand in
      case findMany (findMany_call env) w userId (sr_externalReviewId review) of
        (Inl e, w1) \<Rightarrow> w1
      | (Inr existingReviews, w1) \<Rightarrow>
          if length existingReviews > 0 then w1
          else
            (case generateResponse (generate_call env) w1 (sr_reviewText review)
                    (sr_starRating review) defaultTone language of
               (Inl e, w2) \<Rightarrow> w2
             | (Inr responseText, w2) \<Rightarrow>
                 snd (createReview (createReview_call env) w2 \<lparr>
                        ir_userId = userId,
                        ir_platformId = Some (pl_id platform),
                        ir_externalReviewId = Some (sr_externalReviewId review),
                        ir_customerName = Some (sr_customerName review),
                        ir_reviewText = sr_reviewText review,
                        ir_starRating = sr_starRating review,
                        ir_responseText = Some responseText,
                        ir_responseTone = defaultTone,
                        ir_respondedAt = Some (clock w2),
                        ir_autoResponded = Some True \<rparr>)))"

text \<open>The body of the loop over \<open>platforms\<close>, with its \<open>try\<close>/\<open>catch\<close>.\<close>

definition processPlatform ::
  "string \<Rightarrow> string \<Rightarrow> string \<Rightarrow> platform \<Rightarrow> error + (sim_review \<times> review_env) list
     \<Rightarrow> world \<Rightarrow> world" where
  "processPlatform userId defaultTone language platform fetched w =
     (case fetched of
        Inl platformError \<Rightarrow> w
      | Inr newReviews \<Rightarrow> fold (processReview userId defaultTone language platform) newReviews w)"

text \<open>The loop over \<open>platforms\<close>; \<open>i\<close> is the position of the platform in the list.\<close>

fun processPlatforms ::
  "account_env \<Rightarrow> string \<Rightarrow> string \<Rightarrow> string \<Rightarrow> nat \<Rightarrow> platform list \<Rightarrow> world \<Rightarrow> world" where
  "processPlatforms env userId defaultTone language i [] w = w"
| "processPlatforms env userId defaultTone language i (platform # rest) w =
     processPlatforms env userId defaultTone language (Suc i) rest
       (processPlatform userId defaultTone language platform (simulateNewReviews_out env i) w)"

text \<open>The object \<open>{ lastCheckTime: new Date() }\<close> of step 7, built in world \<open>w\<close>.\<close>

definition watermark_patch :: "world \<Rightarrow> partial_user_settings" where
  "watermark_patch w =
     \<lparr>pus_userId = None, pus_defaultTone = None, pus_language = None,
      pus_autoReplyEnabled = None, pus_lastCheckTime = Some (Some (clock w))\<rparr>"

text \<open>The outer \<open>try\<close> block of \<open>processUserReviews\<close>.\<close>

definition processUserReviews_try ::
  "account_env \<Rightarrow> string \<Rightarrow> string \<Rightarrow> string \<Rightarrow> world \<Rightarrow> (error + unit) \<times> world" where
  "processUserReviews_try env userId defaultTone language w =
     (case getPlatforms (getPlatforms_call env) w userId of
        (Inl e, w1) \<Rightarrow> (Inl e, w1)
      | (Inr platforms, w1) \<Rightarrow>
          if length platforms = 0 then (Inr (), w1)
          else
            (case getUserSettings (getUserSettings_call env) w1 userId of
               (Inl e, w2) \<Rightarrow> (Inl e, w2)
             | (Inr None, w2) \<Rightarrow> (Inr (), w2)
             | (Inr (Some settings), w2) \<Rightarrow>
                 (let w3 = processPlatforms env userId defaultTone language 0 platforms w2 in
                  case updateUserSettings (updateUserSettings_call env) (createUserSettings_call env)
                         w3 userId (watermark_patch w3) of
                    (Inl e, w4) \<Rightarrow> (Inl e, w4)
                  | (Inr updated, w4) \<Rightarrow> (Inr (), w4))))"

text \<open>
  \<open>processUserReviews\<close>: the first console line, the \<open>try\<close> block, and the \<open>catch\<close> that
  logs whatever the block threw.
\<close>

definition processing_line :: "string \<Rightarrow> string" where
  "processing_line userId = ''AutoReplyAI: Processing reviews for user '' @ userId"

definition processUserReviews ::
  "account_env \<Rightarrow> string \<Rightarrow> string \<Rightarrow> string \<Rightarrow> world \<Rightarrow> (error + unit) \<times> world" where
  "processUserReviews env userId defaultTone language w =
     (let w0 = w\<lparr>console := console w @ [processing_line userId]\<rparr> in
      case processUserReviews_try env userId defaultTone language w0 of
        (Inl e, w1) \<Rightarrow> (Inr (), w1)
      | (Inr u, w1) \<Rightarrow> (Inr (), w1))"

section \<open>The sweep and the manual trigger\<close>

text \<open>
  The body of the loop of \<open>processAllUsers\<close> for one row of the query's result: the
  check of \<open>processingUsers\<close>, the add, the pipeline under \<open>try\<close>/\<open>catch\<close>, and the
  delete in \<open>finally\<close>.
\<close>

definition sweep_visit :: "account_env \<Rightarrow> user_settings \<Rightarrow> world \<Rightarrow> world" where
  "sweep_visit env setting w =
     (let userId = us_userId setting in
      if userId \<in> processingUsers w then w
      else
        let w1 = w\<lparr>processingUsers := insert userId (processingUsers w)\<rparr>;
            w2 = (case processUserReviews env userId (us_defaultTone setting)
                         (us_language setting) w1 of
                    (Inl e, w') \<Rightarrow> w'
                  | (Inr u, w') \<Rightarrow> w');
            w3 = w2\<lparr>processingUsers := processingUsers w2 - {userId}\<rparr>
        in w3)"

text \<open>
  The loop itself; \<open>i\<close> is the position of the row, and the environment answers the
  calls of the account at each position.
\<close>

fun sweep_loop :: "(nat \<Rightarrow> account_env) \<Rightarrow> nat \<Rightarrow> user_settings list \<Rightarrow> world \<Rightarrow> world" where
  "sweep_loop envs i [] w = w"
| "sweep_loop envs i (setting # rest) w =
     sweep_loop envs (Suc i) rest (sweep_visit (envs i) setting w)"

record sweep_env =
  select_call :: db_call
  account_envs :: "nat \<Rightarrow> account_env"

definition processAllUsers :: "sweep_env \<Rightarrow> world \<Rightarrow> (error + unit) \<times> world" where
  "processAllUsers env w =
     (let w1 = elapse (latency (select_call env)) w in
      if rejects (select_call env) then (Inr (), w1)
      else (Inr (), sweep_loop (account_envs env) 0
                      (filter us_autoReplyEnabled (userSettings_rows w1)) w1))"

record manual_env =
  settings_call :: db_call
  pipeline_env :: account_env

definition checkUserReviewsNow :: "manual_env \<Rightarrow> world \<Rightarrow> string \<Rightarrow> (error + unit) \<times> world" where
  "checkUserReviewsNow env w userId =
     (if userId \<in> processingUsers w
      then (Inl (Error ''Already processing reviews for this user''), w)
      else
        let w1 = w\<lparr>processingUsers := insert userId (processingUsers w)\<rparr>;
            res = (case getUserSettings (settings_call env) w1 userId of
                     (Inl e, w2) \<Rightarrow> (Inl e, w2)
                   | (Inr None, w2) \<Rightarrow> (Inl (Error ''User settings not found''), w2)
                   | (Inr (Some settings), w2) \<Rightarrow>
                       processUserReviews (pipeline_env env) userId (us_defaultTone settings)
                         (us_language settings) w2)
        in (fst res, (snd res)\<lparr>processingUsers := processingUsers (snd res) - {userId}\<rparr>))"

section \<open>The endpoint POST /api/check-reviews (routes.ts)\<close>

record http_response =
  res_status :: nat
  res_message :: string

text \<open>
  \<open>sub\<close> is \<open>req.user?.claims?.sub\<close> of a request that passed \<open>isAuthenticated\<close>;
  \<open>extractUserId\<close> answers 401 when it is missing or empty.
\<close>

definition check_reviews_route ::
  "manual_env \<Rightarrow> world \<Rightarrow> string option \<Rightarrow> http_response \<times> world" where
  "check_reviews_route env w sub =
     (case sub of
        None \<Rightarrow> (\<lparr>res_status = 401, res_message = ''Unauthorized''\<rparr>, w)
      | Some userId \<Rightarrow>
          if userId = [] then (\<lparr>res_status = 401, res_message = ''Unauthorized''\<rparr>, w)
          else
            (case checkUserReviewsNow env w userId of
               (Inr u, w1) \<Rightarrow> (\<lparr>res_status = 200, res_message = ''Review check initiated''\<rparr>, w1)
             | (Inl e, w1) \<Rightarrow>
                 (\<lparr>res_status = 500, res_message = ''Failed to check for reviews''\<rparr>, w1)))"

section \<open>Starting and stopping the service\<close>

definition CHECK_INTERVAL :: nat where
  "CHECK_INTERVAL = 5 * 60 * 1000"

text \<open>
  The service object with the part of the Node runtime it acts on: the interval timers
  that are armed (handle and period in milliseconds), the number of handles given out,
  and the number of calls of \<open>processAllUsers\<close> that \<open>start\<close> made itself.
\<close>

record service =
  isRunning :: bool
  timer :: "nat option"
  intervals :: "(nat \<times> nat) list"
  handles :: nat
  sweeps_started :: nat

definition start :: "service \<Rightarrow> service" where
  "start s =
     (if isRunning s then s
      else
        let s1 = s\<lparr>isRunning := True\<rparr>;
            s2 = s1\<lparr>sweeps_started := Suc (sweeps_started s1)\<rparr>;
            h = Suc (handles s2)
        in s2\<lparr>timer := Some h,
              intervals := intervals s2 @ [(h, CHECK_INTERVAL)],
              handles := h\<rparr>)"

definition stop :: "service \<Rightarrow> service" where
  "stop s =
     (if \<not> isRunning s then s
      else
        let s1 = s\<lparr>isRunning := False\<rparr> in
        case timer s1 of
          None \<Rightarrow> s1
        | Some h \<Rightarrow> s1\<lparr>intervals := filter (\<lambda>t. fst t \<noteq> h) (intervals s1), timer := None\<rparr>)"

section \<open>The guard under interleaving\<close>






section \<open>Auxiliary notions for the proofs\<close>

text \<open>
  \<open>frame w w'\<close>: what handling candidates leaves alone (everything but the review table
  and its counter), with the clock only moving forward.
\<close>

definition frame :: "world \<Rightarrow> world \<Rightarrow> bool" where
  "frame w w' \<longleftrightarrow>
     userSettings_rows w' = userSettings_rows w \<and> userSettings_serial w' = userSettings_serial w \<and>
     platforms_rows w' = platforms_rows w \<and> replyTemplates_rows w' = replyTemplates_rows w \<and>
     processingUsers w' = processingUsers w \<and> console w' = console w \<and> clock w \<le> clock w'"

text \<open>What the UPDATE of step 7 does to one settings row.\<close>

definition stamp :: "string \<Rightarrow> timestamp \<Rightarrow> timestamp \<Rightarrow> user_settings \<Rightarrow> user_settings" where
  "stamp u t t' s =
     (if us_userId s = u then s\<lparr>us_lastCheckTime := Some t, us_updatedAt := Some t'\<rparr> else s)"

text \<open>The watermark of an account: \<open>lastCheckTime\<close> of the row \<open>getUserSettings\<close> returns.\<close>

definition watermark :: "world \<Rightarrow> string \<Rightarrow> timestamp option" where
  "watermark w u =
     (case filter (\<lambda>s. us_userId s = u) (userSettings_rows w) of
        [] \<Rightarrow> None
      | s # _ \<Rightarrow> us_lastCheckTime s)"

section \<open>Concrete worlds and answers\<close>

text \<open>
  Two accounts, \<open>alice\<close> and \<open>bob\<close>, each with a settings row that enables automation
  and one connected platform; \<open>carol\<close> has one platform and no settings row. The answers
  \<open>ok_call\<close> and \<open>rejected_call\<close> are a database statement that executes and one that is
  rejected; \<open>api_throws\<close> is a failing call of the text generator.
\<close>

definition ok_call :: db_call where
  "ok_call = \<lparr>latency = 1, rejects = False\<rparr>"

definition rejected_call :: db_call where
  "rejected_call = \<lparr>latency = 1, rejects = True\<rparr>"

definition api_throws :: api_call where
  "api_throws = \<lparr>api_latency = 2, api_result = ApiError\<rparr>"

definition world0 :: world where
  "world0 = \<lparr>clock = 1000, userSettings_rows = [], userSettings_serial = 0,
     platforms_rows = [], reviews_rows = [], reviews_serial = 0, replyTemplates_rows = [],
     processingUsers = {}, console = []\<rparr>"

definition settings_of :: "nat \<Rightarrow> string \<Rightarrow> string \<Rightarrow> user_settings" where
  "settings_of i userId tone =
     \<lparr>us_id = i, us_userId = userId, us_defaultTone = tone, us_language = ''English'',
      us_autoReplyEnabled = True, us_lastCheckTime = Some 500, us_createdAt = Some 100,
      us_updatedAt = Some 100\<rparr>"

definition platform_of :: "nat \<Rightarrow> string \<Rightarrow> platform" where
  "platform_of i userId =
     \<lparr>pl_id = i, pl_userId = userId, pl_platformName = ''Google Business'',
      pl_platformId = ''gb'', pl_accessToken = None, pl_refreshToken = None,
      pl_tokenExpiry = None, pl_createdAt = Some 100, pl_updatedAt = Some 100\<rparr>"

definition world1 :: world where
  "world1 = world0\<lparr>
     userSettings_rows := [settings_of 1 ''alice'' ''Friendly'', settings_of 2 ''bob'' ''Casual''],
     userSettings_serial := 2,
     platforms_rows := [platform_of 1 ''alice'', platform_of 2 ''bob'', platform_of 3 ''carol'']\<rparr>"

definition candidate :: sim_review where
  "candidate = \<lparr>sr_customerName = ''Alex Johnson'', sr_reviewText = ''The service was excellent.'',
     sr_starRating = 5, sr_externalReviewId = ''sim-1-42'', sr_platformName = ''Google Business''\<rparr>"

definition review_ok :: review_env where
  "review_ok = \<lparr>findMany_call = ok_call, generate_call = api_throws, createReview_call = ok_call\<rparr>"

text \<open>An account run whose calls all execute, with the given simulator output.\<close>

definition account_ok :: "(nat \<Rightarrow> (sim_review \<times> review_env) list) \<Rightarrow> account_env" where
  "account_ok sim = \<lparr>getPlatforms_call = ok_call, getUserSettings_call = ok_call,
     simulateNewReviews_out = (\<lambda>i. Inr (sim i)), updateUserSettings_call = ok_call,
     createUserSettings_call = ok_call\<rparr>"

text \<open>An account run whose calls execute while the fetch of every platform fails.\<close>

definition account_fetch_fails :: account_env where
  "account_fetch_fails = \<lparr>getPlatforms_call = ok_call, getUserSettings_call = ok_call,
     simulateNewReviews_out = (\<lambda>i. Inl (Error ''platform unavailable'')),
     updateUserSettings_call = ok_call, createUserSettings_call = ok_call\<rparr>"

text \<open>An account run whose first database call is rejected.\<close>

definition account_down :: account_env where
  "account_down = \<lparr>getPlatforms_call = rejected_call, getUserSettings_call = rejected_call,
     simulateNewReviews_out = (\<lambda>i. Inr []), updateUserSettings_call = rejected_call,
     createUserSettings_call = rejected_call\<rparr>"

definition manual_ok :: manual_env where
  "manual_ok = \<lparr>settings_call = ok_call, pipeline_env = account_ok (\<lambda>i. [])\<rparr>"

text \<open>The simulator returning the one record \<open>candidate\<close> for every platform.\<close>

definition one_candidate :: "nat \<Rightarrow> (sim_review \<times> review_env) list" where
  "one_candidate i = [(candidate, review_ok)]"

text \<open>
  A candidate whose database calls are rejected, and a sweep in which the first account's
  database calls are rejected while every other call executes.
\<close>

definition review_down :: review_env where
  "review_down = \<lparr>findMany_call = rejected_call, generate_call = api_throws,
     createReview_call = rejected_call\<rparr>"

definition alice_down :: sweep_env where
  "alice_down = \<lparr>select_call = ok_call,
     account_envs = (\<lambda>i. if i = 0 then account_down else account_ok (\<lambda>k. []))\<rparr>"

text \<open>
  A world in which \<open>alice\<close> is being processed, and two partial settings objects: one
  with an empty tone, one with the tone \<open>Friendly\<close>.
\<close>

definition world_busy :: world where
  "world_busy = world1\<lparr>processingUsers := {''alice''}\<rparr>"

definition empty_tone_patch :: partial_user_settings where
  "empty_tone_patch = \<lparr>pus_userId = None, pus_defaultTone = Some [], pus_language = None,
     pus_autoReplyEnabled = Some True, pus_lastCheckTime = None\<rparr>"

definition friendly_patch :: partial_user_settings where
  "friendly_patch = \<lparr>pus_userId = None, pus_defaultTone = Some ''Friendly'', pus_language = None,
     pus_autoReplyEnabled = Some True, pus_lastCheckTime = None\<rparr>"

definition service0 :: service where
  "service0 = \<lparr>isRunning = False, timer = None, intervals = [], handles = 0, sweeps_started = 0\<rparr>"

section \<open>Frame lemmas\<close>

lemma matching_elapse [simp]: "matching u x (elapse d w) = matching u x w"
  by (simp add: matching_def elapse_def)

lemma matching_console [simp]: "matching u x (w\<lparr>console := c\<rparr>) = matching u x w"
  by (simp add: matching_def)

lemma processReview_reviews:
  "reviews_rows (processReview userId t l p cand w) = reviews_rows w \<or>
   (matching userId (sr_externalReviewId (fst cand)) w = [] \<and>
    (\<exists>r. reviews_rows (processReview userId t l p cand w) = reviews_rows w @ [r] \<and>
         rv_userId r = userId \<and> rv_externalReviewId r = Some (sr_externalReviewId (fst cand))))"
  by (auto simp: processReview_def findMany_def generateResponse_def createReview_def
      elapse_def matching_def Let_def split: api_result.splits)

lemma frame_refl [simp]: "frame w w"
  by (simp add: frame_def)

lemma frame_trans: "frame w w1 \<Longrightarrow> frame w1 w2 \<Longrightarrow> frame w w2"
  by (auto simp: frame_def)

lemma frame_elapse [simp]: "frame w (elapse d w)"
  by (simp add: frame_def elapse_def)

lemma processReview_frame: "frame w (processReview userId t l p cand w)"
  by (auto simp: frame_def processReview_def findMany_def generateResponse_def createReview_def
      elapse_def Let_def split: api_result.splits)

lemma fold_processReview_frame: "frame w (fold (processReview userId t l p) cs w)"
proof (induction cs arbitrary: w)
  case Nil
  show ?case by simp
next
  case (Cons c cs)
  show ?case
    using frame_trans [OF processReview_frame Cons.IH] by simp
qed

lemma processPlatform_frame: "frame w (processPlatform userId t l p fetched w)"
  by (cases fetched) (simp_all add: processPlatform_def fold_processReview_frame)

lemma processPlatforms_frame: "frame w (processPlatforms env userId t l i ps w)"
proof (induction ps arbitrary: i w)
  case Nil
  show ?case by simp
next
  case (Cons p ps)
  show ?case
    using frame_trans [OF processPlatform_frame Cons.IH] by simp
qed

section \<open>The watermark update\<close>

lemma updateUserSettings_watermark_snd:
  assumes "filter (\<lambda>s. us_userId s = u) (userSettings_rows w) \<noteq> []"
  shows "snd (updateUserSettings cu ci w u (watermark_patch w3)) =
          (if rejects cu then elapse (latency cu) w
           else (elapse (latency cu) w)\<lparr>userSettings_rows :=
                  map (stamp u (clock w3) (clock w)) (userSettings_rows w)\<rparr>)"
proof -
  obtain s ss where "filter (\<lambda>s. us_userId s = u) (userSettings_rows w) = s # ss"
    using assms by (cases "filter (\<lambda>s. us_userId s = u) (userSettings_rows w)") auto
  then show ?thesis
    by (simp add: updateUserSettings_def Let_def elapse_def watermark_patch_def
        set_user_settings_def stamp_def cong: map_cong)
qed

lemma processUserReviews_try_snd:
  "snd (processUserReviews_try env u t l w) =
     (let w1 = elapse (latency (getPlatforms_call env)) w;
          ps = filter (\<lambda>p. pl_userId p = u) (platforms_rows w) in
      if rejects (getPlatforms_call env) \<or> ps = [] then w1
      else
        let w2 = elapse (latency (getUserSettings_call env)) w1 in
        if rejects (getUserSettings_call env) \<or> filter (\<lambda>s. us_userId s = u) (userSettings_rows w) = []
        then w2
        else
          let w3 = processPlatforms env u t l 0 ps w2 in
          snd (updateUserSettings (updateUserSettings_call env) (createUserSettings_call env) w3 u
                 (watermark_patch w3)))"
proof (cases "rejects (getPlatforms_call env) \<or> filter (\<lambda>p. pl_userId p = u) (platforms_rows w) = []")
  case True
  then show ?thesis
    by (auto simp: processUserReviews_try_def getPlatforms_def Let_def elapse_def)
next
  case noP: False
  show ?thesis
  proof (cases "rejects (getUserSettings_call env) \<or> filter (\<lambda>s. us_userId s = u) (userSettings_rows w) = []")
    case True
    with noP show ?thesis
      by (auto simp: processUserReviews_try_def getPlatforms_def getUserSettings_def Let_def elapse_def)
  next
    case False
    then obtain s ss where "filter (\<lambda>s. us_userId s = u) (userSettings_rows w) = s # ss"
      by (cases "filter (\<lambda>s. us_userId s = u) (userSettings_rows w)") auto
    with noP False show ?thesis
      by (simp add: processUserReviews_try_def getPlatforms_def getUserSettings_def Let_def
          elapse_def split: prod.splits sum.splits)
  qed
qed

lemma processUserReviews_fst [simp]: "fst (processUserReviews env u t l w) = Inr ()"
  by (simp add: processUserReviews_def Let_def split: prod.splits sum.splits)

lemma processUserReviews_snd:
  "snd (processUserReviews env u t l w) =
     snd (processUserReviews_try env u t l (w\<lparr>console := console w @ [processing_line u]\<rparr>))"
  by (simp add: processUserReviews_def Let_def split: prod.splits sum.splits)

text \<open>The world after a pipeline run, in the three ways it can end.\<close>

lemma processUserReviews_cases:
  obtains (early) w' where
      "snd (processUserReviews env u t l w) = w'\<lparr>console := console w @ [processing_line u]\<rparr>"
      "frame w w'" "reviews_rows w' = reviews_rows w" "reviews_serial w' = reviews_serial w"
      "rejects (getPlatforms_call env) \<or> filter (\<lambda>p. pl_userId p = u) (platforms_rows w) = [] \<or>
       rejects (getUserSettings_call env) \<or> filter (\<lambda>s. us_userId s = u) (userSettings_rows w) = []"
    | (unstamped) w2 w3 where
      "snd (processUserReviews env u t l w) = elapse (latency (updateUserSettings_call env)) w3"
      "w2 = elapse (latency (getUserSettings_call env)) (elapse (latency (getPlatforms_call env))
               (w\<lparr>console := console w @ [processing_line u]\<rparr>))"
      "w3 = processPlatforms env u t l 0 (filter (\<lambda>p. pl_userId p = u) (platforms_rows w)) w2"
      "rejects (updateUserSettings_call env)"
      "\<not> rejects (getPlatforms_call env)" "filter (\<lambda>p. pl_userId p = u) (platforms_rows w) \<noteq> []"
      "\<not> rejects (getUserSettings_call env)" "filter (\<lambda>s. us_userId s = u) (userSettings_rows w) \<noteq> []"
    | (stamped) w2 w3 where
      "snd (processUserReviews env u t l w) =
         (elapse (latency (updateUserSettings_call env)) w3)\<lparr>userSettings_rows :=
            map (stamp u (clock w3) (clock w3)) (userSettings_rows w)\<rparr>"
      "w2 = elapse (latency (getUserSettings_call env)) (elapse (latency (getPlatforms_call env))
               (w\<lparr>console := console w @ [processing_line u]\<rparr>))"
      "w3 = processPlatforms env u t l 0 (filter (\<lambda>p. pl_userId p = u) (platforms_rows w)) w2"
      "\<not> rejects (getPlatforms_call env)" "filter (\<lambda>p. pl_userId p = u) (platforms_rows w) \<noteq> []"
      "\<not> rejects (getUserSettings_call env)" "filter (\<lambda>s. us_userId s = u) (userSettings_rows w) \<noteq> []"
      "\<not> rejects (updateUserSettings_call env)"
proof -
  let ?w0 = "w\<lparr>console := console w @ [processing_line u]\<rparr>"
  let ?ps = "filter (\<lambda>p. pl_userId p = u) (platforms_rows w)"
  let ?w1 = "elapse (latency (getPlatforms_call env)) ?w0"
  let ?w2 = "elapse (latency (getUserSettings_call env)) ?w1"
  let ?w3 = "processPlatforms env u t l 0 ?ps ?w2"
  have fr: "frame ?w2 ?w3" by (rule processPlatforms_frame)
  show thesis
  proof (cases "rejects (getPlatforms_call env) \<or> ?ps = []")
    case True
    then have "snd (processUserReviews env u t l w) = ?w1"
      by (simp add: processUserReviews_snd processUserReviews_try_snd Let_def)
    then show thesis
      using True
      by (intro early [of "elapse (latency (getPlatforms_call env)) w"])
         (auto simp: elapse_def frame_def)
  next
    case noP: False
    show thesis
    proof (cases "rejects (getUserSettings_call env) \<or> filter (\<lambda>s. us_userId s = u) (userSettings_rows w) = []")
      case True
      with noP have "snd (processUserReviews env u t l w) = ?w2"
        by (simp add: processUserReviews_snd processUserReviews_try_snd Let_def)
      then show thesis
        using True
        by (intro early [of "elapse (latency (getUserSettings_call env))
               (elapse (latency (getPlatforms_call env)) w)"])
           (auto simp: elapse_def frame_def)
    next
      case noS: False
      have rows3: "userSettings_rows ?w3 = userSettings_rows w"
        using fr by (simp add: frame_def elapse_def)
      have eq: "snd (processUserReviews env u t l w) =
          snd (updateUserSettings (updateUserSettings_call env) (createUserSettings_call env) ?w3 u
                 (watermark_patch ?w3))"
        using noP noS by (simp add: processUserReviews_snd processUserReviews_try_snd Let_def)
      have upd: "snd (updateUserSettings (updateUserSettings_call env) (createUserSettings_call env) ?w3 u
                 (watermark_patch ?w3)) =
          (if rejects (updateUserSettings_call env) then elapse (latency (updateUserSettings_call env)) ?w3
           else (elapse (latency (updateUserSettings_call env)) ?w3)\<lparr>userSettings_rows :=
                  map (stamp u (clock ?w3) (clock ?w3)) (userSettings_rows ?w3)\<rparr>)"
        using noS rows3 by (intro updateUserSettings_watermark_snd) simp
      show thesis
      proof (cases "rejects (updateUserSettings_call env)")
        case True
        with eq upd noP noS show thesis by (intro unstamped [OF _ refl refl]) simp_all
      next
        case False
        with eq upd rows3 noP noS show thesis by (intro stamped [OF _ refl refl]) simp_all
      qed
    qed
  qed
qed


section \<open>Starting and stopping\<close>

text \<open>
  C6. \<open>start\<close> on a running service changes nothing, so a second call arms no second
  timer; on a stopped service it makes one call of \<open>processAllUsers\<close> and arms one
  interval timer with a period of 300000 ms. \<open>stop\<close> on a stopped service changes
  nothing; on a running one it clears the flag and the service's timer and touches
  nothing else.
\<close>

theorem start_stop_idempotent:
  "(isRunning s \<longrightarrow> start s = s) \<and>
   start (start s) = start s \<and>
   (\<not> isRunning s \<longrightarrow>
      isRunning (start s) \<and>
      sweeps_started (start s) = Suc (sweeps_started s) \<and>
      timer (start s) = Some (Suc (handles s)) \<and>
      intervals (start s) = intervals s @ [(Suc (handles s), 300000)]) \<and>
   (\<not> isRunning s \<longrightarrow> stop s = s) \<and>
   stop (stop s) = stop s \<and>
   \<not> isRunning (stop s) \<and>
   sweeps_started (stop s) = sweeps_started s \<and>
   handles (stop s) = handles s \<and>
   (isRunning s \<longrightarrow>
      timer (stop s) = None \<and>
      intervals (stop s) =
        (case timer s of None \<Rightarrow> intervals s
         | Some h \<Rightarrow> filter (\<lambda>t. fst t \<noteq> h) (intervals s)))"
  by (auto simp: start_def stop_def Let_def CHECK_INTERVAL_def split: option.splits)

theorem start_stop_idempotent_witness:
  "start (start service0) = start service0 \<and>
   intervals (start (start service0)) = [(1, 300000)] \<and>
   sweeps_started (start (start service0)) = 1 \<and>
   stop service0 = service0 \<and>
   stop (stop (start service0)) = stop (start service0) \<and>
   intervals (stop (start service0)) = [] \<and>
   timer (stop (start service0)) = None"
  using start_stop_idempotent [of service0] start_stop_idempotent [of "start service0"]
  by (simp add: start_def stop_def service0_def Let_def CHECK_INTERVAL_def)

section \<open>No second row for one external review\<close>

lemma matching_userSettings_rows [simp]: "matching u x (w\<lparr>userSettings_rows := r\<rparr>) = matching u x w"
  by (simp add: matching_def)

lemma processReview_count:
  "length (matching u x (processReview userId t l p cand w)) \<le> max 1 (length (matching u x w))"
  using processReview_reviews [of userId t l p cand w]
  by (auto simp: matching_def)

lemma fold_processReview_count:
  "length (matching u x (fold (processReview userId t l p) cs w)) \<le> max 1 (length (matching u x w))"
proof (induction cs arbitrary: w)
  case Nil
  then show ?case by simp
next
  case (Cons c cs)
  have "length (matching u x (fold (processReview userId t l p) cs (processReview userId t l p c w)))
        \<le> max 1 (length (matching u x (processReview userId t l p c w)))"
    by (rule Cons.IH)
  also have "\<dots> \<le> max 1 (max 1 (length (matching u x w)))"
    using processReview_count [of u x userId t l p c w] by simp
  finally show ?case by simp
qed

lemma processPlatform_count:
  "length (matching u x (processPlatform userId t l p fetched w)) \<le> max 1 (length (matching u x w))"
proof (cases fetched)
  case (Inl e)
  then show ?thesis by (simp add: processPlatform_def)
next
  case (Inr cs)
  then show ?thesis
    using fold_processReview_count [of u x userId t l p cs w] by (simp add: processPlatform_def)
qed

lemma processPlatforms_count:
  "length (matching u x (processPlatforms env userId t l i ps w)) \<le> max 1 (length (matching u x w))"
proof (induction ps arbitrary: i w)
  case Nil
  then show ?case by simp
next
  case (Cons p ps)
  let ?w1 = "processPlatform userId t l p (simulateNewReviews_out env i) w"
  have "length (matching u x (processPlatforms env userId t l (Suc i) ps ?w1))
        \<le> max 1 (length (matching u x ?w1))"
    by (rule Cons.IH)
  also have "\<dots> \<le> max 1 (max 1 (length (matching u x w)))"
    using processPlatform_count [of u x userId t l p "simulateNewReviews_out env i" w] by simp
  finally show ?case by simp
qed

lemma processUserReviews_count:
  "length (matching u x (snd (processUserReviews env userId t l w))) \<le> max 1 (length (matching u x w))"
proof (cases rule: processUserReviews_cases [of env userId t l w])
  case (early w')
  then show ?thesis by (simp add: matching_def)
next
  case (unstamped w2 w3)
  have "matching u x w2 = matching u x w" by (simp add: unstamped(2))
  then show ?thesis
    using processPlatforms_count [of u x env userId t l 0 _ w2] by (simp add: unstamped(1,3))
next
  case (stamped w2 w3)
  have "matching u x w2 = matching u x w" by (simp add: stamped(2))
  then show ?thesis
    using processPlatforms_count [of u x env userId t l 0 _ w2] by (simp add: stamped(1,3))
qed

text \<open>
  C1. A candidate whose (userId, externalReviewId) pair already has a review row is
  skipped: the review table is left as it was, whatever the calls answer. Hence the
  pipeline never adds a second row for a pair: after two runs for an account, with any
  simulator output and any answers of the environment, every pair has at most one row,
  or no more rows than it had before the first run.
\<close>

theorem pipeline_never_duplicates:
  "(matching userId (sr_externalReviewId (fst cand)) w \<noteq> [] \<longrightarrow>
      reviews_rows (processReview userId t l p cand w) = reviews_rows w) \<and>
   length (matching u x (snd (processUserReviews env2 userId t2 l2
                          (snd (processUserReviews env1 userId t1 l1 w)))))
     \<le> max 1 (length (matching u x w))"
proof -
  have "length (matching u x (snd (processUserReviews env2 userId t2 l2
                          (snd (processUserReviews env1 userId t1 l1 w)))))
        \<le> max 1 (length (matching u x (snd (processUserReviews env1 userId t1 l1 w))))"
    by (rule processUserReviews_count)
  also have "\<dots> \<le> max 1 (max 1 (length (matching u x w)))"
    using processUserReviews_count [of u x env1 userId t1 l1 w] by simp
  finally have "length (matching u x (snd (processUserReviews env2 userId t2 l2
                          (snd (processUserReviews env1 userId t1 l1 w)))))
     \<le> max 1 (length (matching u x w))" by simp
  then show ?thesis
    using processReview_reviews [of userId t l p cand w] by auto
qed

text \<open>The definitions a concrete run unfolds.\<close>

lemmas run_defs = processUserReviews_def processUserReviews_try_def account_ok_def one_candidate_def
    world1_def world0_def getPlatforms_def getUserSettings_def ok_call_def elapse_def
    platform_of_def settings_of_def Let_def processPlatform_def processReview_def findMany_def
    matching_def
    generateResponse_def createReview_def review_ok_def api_throws_def candidate_def
    updateUserSettings_def watermark_patch_def set_user_settings_def

theorem pipeline_never_duplicates_witness:
  "matching ''alice'' ''sim-1-42''
     (snd (processUserReviews (account_ok one_candidate) ''alice'' ''Friendly'' ''English'' world1)) \<noteq> [] \<and>
   reviews_rows (processReview ''alice'' ''Friendly'' ''English'' (platform_of 1 ''alice'')
        (candidate, review_ok)
        (snd (processUserReviews (account_ok one_candidate) ''alice'' ''Friendly'' ''English'' world1))) =
   reviews_rows (snd (processUserReviews (account_ok one_candidate) ''alice'' ''Friendly'' ''English'' world1)) \<and>
   length (matching ''alice'' ''sim-1-42''
     (snd (processUserReviews (account_ok one_candidate) ''alice'' ''Friendly'' ''English''
       (snd (processUserReviews (account_ok one_candidate) ''alice'' ''Friendly'' ''English''
         (snd (processUserReviews (account_ok one_candidate) ''alice'' ''Friendly'' ''English'' world1))))))) \<le> 1"
proof -
  let ?w1 = "snd (processUserReviews (account_ok one_candidate) ''alice'' ''Friendly'' ''English'' world1)"
  have a: "map rv_userId (matching ''alice'' ''sim-1-42'' ?w1) = [''alice'']"
    by (simp add: run_defs)
  have a': "matching ''alice'' ''sim-1-42'' ?w1 \<noteq> []" "length (matching ''alice'' ''sim-1-42'' ?w1) = 1"
    using arg_cong [OF a, of length] by auto
  show ?thesis
    using pipeline_never_duplicates [where userId = "''alice''" and cand = "(candidate, review_ok)"
        and w = ?w1 and t = "''Friendly''" and l = "''English''" and p = "platform_of 1 ''alice''"
        and u = "''alice''" and x = "''sim-1-42''"
        and ?env1.0 = "account_ok one_candidate" and ?t1.0 = "''Friendly''" and ?l1.0 = "''English''"
        and ?env2.0 = "account_ok one_candidate" and ?t2.0 = "''Friendly''" and ?l2.0 = "''English''"] a'
    by (simp add: candidate_def)
qed

section \<open>The watermark\<close>

lemma us_userId_stamp [simp]: "us_userId (stamp u t t' s) = us_userId s"
  by (simp add: stamp_def)

lemma filter_map_stamp:
  "filter (\<lambda>s. us_userId s = b) (map (stamp u t t') rows) =
   map (stamp u t t') (filter (\<lambda>s. us_userId s = b) rows)"
  by (induction rows) auto

lemma filter_Cons_holds: "filter P xs = y # ys \<Longrightarrow> P y"
proof -
  assume "filter P xs = y # ys"
  then have "y \<in> set (filter P xs)" by simp
  then show "P y" by simp
qed

lemma watermark_map_stamp:
  "watermark (w\<lparr>userSettings_rows := map (stamp u t t') (userSettings_rows w0)\<rparr>) b =
     (if b = u then (if filter (\<lambda>s. us_userId s = u) (userSettings_rows w0) = [] then None else Some t)
      else watermark w0 b)"
proof (cases "filter (\<lambda>s. us_userId s = b) (userSettings_rows w0)")
  case Nil
  then show ?thesis
    by (auto simp: watermark_def filter_map_stamp)
next
  case (Cons z zs)
  then have "us_userId z = b" by (rule filter_Cons_holds)
  with Cons show ?thesis
    by (auto simp: watermark_def filter_map_stamp stamp_def)
qed

lemma watermark_same_rows:
  "userSettings_rows w' = userSettings_rows w \<Longrightarrow> watermark w' b = watermark w b"
  by (simp add: watermark_def)

lemma watermark_Some_filter:
  "watermark w b = Some t \<Longrightarrow> filter (\<lambda>s. us_userId s = b) (userSettings_rows w) \<noteq> []"
  by (auto simp: watermark_def)

lemma stamp_lastCheckTime: "us_userId s = u \<Longrightarrow> us_lastCheckTime (stamp u t t' s) = Some t"
  by (simp add: stamp_def)

lemma stamped_rows:
  "\<forall>s \<in> set (map (stamp u t t') rows). us_userId s = u \<longrightarrow> us_lastCheckTime s = Some t"
proof (intro ballI impI)
  fix s
  assume "s \<in> set (map (stamp u t t') rows)" and u: "us_userId s = u"
  then obtain r where "s = stamp u t t' r" by auto
  with u show "us_lastCheckTime s = Some t"
    by (simp add: stamp_lastCheckTime)
qed

text \<open>What a pipeline run leaves alone.\<close>

lemma processUserReviews_static:
  "processingUsers (snd (processUserReviews env u t l w)) = processingUsers w \<and>
   platforms_rows (snd (processUserReviews env u t l w)) = platforms_rows w \<and>
   map us_userId (userSettings_rows (snd (processUserReviews env u t l w))) =
     map us_userId (userSettings_rows w) \<and>
   clock w \<le> clock (snd (processUserReviews env u t l w)) \<and>
   console (snd (processUserReviews env u t l w)) = console w @ [processing_line u]"
proof (cases rule: processUserReviews_cases [of env u t l w])
  case (early w')
  then show ?thesis by (simp add: frame_def)
next
  case (unstamped w2 w3)
  have "frame w2 w3" unfolding unstamped(3) by (rule processPlatforms_frame)
  then show ?thesis
    by (simp add: unstamped(1,2) frame_def elapse_def)
next
  case (stamped w2 w3)
  have "frame w2 w3" unfolding stamped(3) by (rule processPlatforms_frame)
  then show ?thesis
    by (simp add: stamped(1,2) frame_def elapse_def comp_def)
qed

text \<open>
  Once the clock has reached \<open>T\<close>, a run for any account keeps a watermark that is at
  least \<open>T\<close> at least \<open>T\<close>: it leaves the row alone or stamps it with a later time.
\<close>

lemma processUserReviews_keeps_watermark:
  assumes "T \<le> clock w" "watermark w b = Some tm" "T \<le> tm"
  shows "\<exists>tm'. watermark (snd (processUserReviews env u t l w)) b = Some tm' \<and> T \<le> tm'"
proof (cases rule: processUserReviews_cases [of env u t l w])
  case (early w')
  then have "watermark (snd (processUserReviews env u t l w)) b = watermark w b"
    by (intro watermark_same_rows) (simp add: frame_def)
  with assms show ?thesis by simp
next
  case (unstamped w2 w3)
  have "frame w2 w3" unfolding unstamped(3) by (rule processPlatforms_frame)
  then have "watermark (snd (processUserReviews env u t l w)) b = watermark w b"
    by (intro watermark_same_rows) (simp add: unstamped(1,2) frame_def elapse_def)
  with assms show ?thesis by simp
next
  case (stamped w2 w3)
  have fr: "frame w2 w3" unfolding stamped(3) by (rule processPlatforms_frame)
  then have "clock w \<le> clock w3"
    by (simp add: stamped(2) frame_def elapse_def)
  with assms(1) have "T \<le> clock w3" by simp
  with assms(2,3) stamped(7) show ?thesis
    by (simp add: stamped(1) watermark_map_stamp)
qed

text \<open>A run whose account-level calls execute stamps the account's watermark.\<close>

lemma processUserReviews_advances:
  assumes "\<not> rejects (getPlatforms_call env)" "\<not> rejects (getUserSettings_call env)"
      "\<not> rejects (updateUserSettings_call env)"
      "\<exists>p \<in> set (platforms_rows w). pl_userId p = u"
      "\<exists>s \<in> set (userSettings_rows w). us_userId s = u"
  shows "\<exists>tm. watermark (snd (processUserReviews env u t l w)) u = Some tm \<and> clock w \<le> tm \<and>
          clock (snd (processUserReviews env u t l w)) = tm + latency (updateUserSettings_call env) \<and>
          (\<forall>s \<in> set (userSettings_rows (snd (processUserReviews env u t l w))).
              us_userId s = u \<longrightarrow> us_lastCheckTime s = Some tm)"
proof -
  have ps: "filter (\<lambda>p. pl_userId p = u) (platforms_rows w) \<noteq> []"
    using assms(4) by (auto simp: filter_empty_conv)
  have ss: "filter (\<lambda>s. us_userId s = u) (userSettings_rows w) \<noteq> []"
    using assms(5) by (auto simp: filter_empty_conv)
  show ?thesis
  proof (cases rule: processUserReviews_cases [of env u t l w])
    case (early w')
    from early(5) assms(1,2) ps ss have False by simp
    then show ?thesis ..
  next
    case (unstamped w2 w3)
    from unstamped(4) assms(3) have False by simp
    then show ?thesis ..
  next
    case (stamped w2 w3)
    let ?w' = "snd (processUserReviews env u t l w)"
    have fr: "frame w2 w3" unfolding stamped(3) by (rule processPlatforms_frame)
    then have 0: "clock w \<le> clock w3"
      by (simp add: stamped(2) frame_def elapse_def)
    have 1: "watermark ?w' u = Some (clock w3)"
      using ss by (simp add: stamped(1) watermark_map_stamp)
    have 2: "clock ?w' = clock w3 + latency (updateUserSettings_call env)"
      by (simp add: stamped(1) elapse_def)
    have rows: "userSettings_rows ?w' = map (stamp u (clock w3) (clock w3)) (userSettings_rows w)"
      by (simp add: stamped(1))
    have 3: "\<forall>s \<in> set (userSettings_rows ?w'). us_userId s = u \<longrightarrow> us_lastCheckTime s = Some (clock w3)"
      unfolding rows by (rule stamped_rows)
    show ?thesis
      by (intro exI [of _ "clock w3"] conjI 0 1 2 3)
  qed
qed

section \<open>The sweep\<close>

lemma sweep_visit_eq:
  "sweep_visit env s w =
     (if us_userId s \<in> processingUsers w then w
      else (snd (processUserReviews env (us_userId s) (us_defaultTone s) (us_language s)
                  (w\<lparr>processingUsers := insert (us_userId s) (processingUsers w)\<rparr>)))
             \<lparr>processingUsers := processingUsers w\<rparr>)"
proof (cases "us_userId s \<in> processingUsers w")
  case True
  then show ?thesis by (simp add: sweep_visit_def)
next
  case False
  let ?w1 = "w\<lparr>processingUsers := insert (us_userId s) (processingUsers w)\<rparr>"
  have "processingUsers (snd (processUserReviews env (us_userId s) (us_defaultTone s) (us_language s) ?w1))
        = insert (us_userId s) (processingUsers w)"
    using processUserReviews_static [of env "us_userId s" "us_defaultTone s" "us_language s" ?w1]
    by simp
  moreover have "(case processUserReviews env (us_userId s) (us_defaultTone s) (us_language s) ?w1 of
                    (Inl e, w') \<Rightarrow> w' | (Inr u, w') \<Rightarrow> w') =
                 snd (processUserReviews env (us_userId s) (us_defaultTone s) (us_language s) ?w1)"
    by (simp split: prod.splits sum.splits)
  ultimately show ?thesis
    using False by (simp add: sweep_visit_def Let_def)
qed

lemma watermark_processingUsers [simp]: "watermark (w\<lparr>processingUsers := P\<rparr>) b = watermark w b"
  by (simp add: watermark_def)

lemma sweep_visit_static:
  "processingUsers (sweep_visit env s w) = processingUsers w \<and>
   platforms_rows (sweep_visit env s w) = platforms_rows w \<and>
   map us_userId (userSettings_rows (sweep_visit env s w)) = map us_userId (userSettings_rows w) \<and>
   clock w \<le> clock (sweep_visit env s w) \<and>
   set (console w) \<subseteq> set (console (sweep_visit env s w)) \<and>
   (us_userId s \<notin> processingUsers w \<longrightarrow> processing_line (us_userId s) \<in> set (console (sweep_visit env s w)))"
  using processUserReviews_static [of env "us_userId s" "us_defaultTone s" "us_language s"
      "w\<lparr>processingUsers := insert (us_userId s) (processingUsers w)\<rparr>"]
  by (auto simp: sweep_visit_eq)

lemma sweep_visit_keeps_watermark:
  assumes "T \<le> clock w" "watermark w b = Some tm" "T \<le> tm"
  shows "\<exists>tm'. watermark (sweep_visit env s w) b = Some tm' \<and> T \<le> tm'"
  using processUserReviews_keeps_watermark [of T
      "w\<lparr>processingUsers := insert (us_userId s) (processingUsers w)\<rparr>" b tm env
      "us_userId s" "us_defaultTone s" "us_language s"] assms
  by (auto simp: sweep_visit_eq)

lemma sweep_visit_advances:
  assumes "us_userId s \<notin> processingUsers w"
      "\<not> rejects (getPlatforms_call env)" "\<not> rejects (getUserSettings_call env)"
      "\<not> rejects (updateUserSettings_call env)"
      "\<exists>p \<in> set (platforms_rows w). pl_userId p = us_userId s"
      "\<exists>r \<in> set (userSettings_rows w). us_userId r = us_userId s"
  shows "\<exists>tm. watermark (sweep_visit env s w) (us_userId s) = Some tm \<and> clock w \<le> tm"
  using processUserReviews_advances [of env
      "w\<lparr>processingUsers := insert (us_userId s) (processingUsers w)\<rparr>"
      "us_userId s" "us_defaultTone s" "us_language s"] assms
  by (auto simp: sweep_visit_eq)

lemma sweep_loop_static:
  "processingUsers (sweep_loop envs i ss w) = processingUsers w \<and>
   platforms_rows (sweep_loop envs i ss w) = platforms_rows w \<and>
   map us_userId (userSettings_rows (sweep_loop envs i ss w)) = map us_userId (userSettings_rows w) \<and>
   clock w \<le> clock (sweep_loop envs i ss w) \<and>
   set (console w) \<subseteq> set (console (sweep_loop envs i ss w))"
proof (induction ss arbitrary: i w)
  case Nil
  show ?case by simp
next
  case (Cons s ss)
  show ?case
    using Cons.IH [of "Suc i" "sweep_visit (envs i) s w"] sweep_visit_static [of "envs i" s w]
    by auto
qed

lemma sweep_loop_keeps_watermark:
  "T \<le> clock w \<Longrightarrow> watermark w b = Some tm \<Longrightarrow> T \<le> tm \<Longrightarrow>
   \<exists>tm'. watermark (sweep_loop envs i ss w) b = Some tm' \<and> T \<le> tm'"
proof (induction ss arbitrary: i w tm)
  case Nil
  then show ?case by simp
next
  case (Cons s ss)
  obtain tm1 where 1: "watermark (sweep_visit (envs i) s w) b = Some tm1" "T \<le> tm1"
    using sweep_visit_keeps_watermark [OF Cons.prems] by blast
  have "T \<le> clock (sweep_visit (envs i) s w)"
    using sweep_visit_static [of "envs i" s w] Cons.prems(1) by simp
  from Cons.IH [OF this 1] show ?case by simp
qed

lemma sweep_loop_processes:
  "j < length ss \<Longrightarrow> us_userId (ss ! j) \<notin> processingUsers w \<Longrightarrow>
   processing_line (us_userId (ss ! j)) \<in> set (console (sweep_loop envs i ss w))"
proof (induction ss arbitrary: i j w)
  case Nil
  then show ?case by simp
next
  case (Cons s ss)
  show ?case
  proof (cases j)
    case 0
    with Cons.prems have "processing_line (us_userId s) \<in> set (console (sweep_visit (envs i) s w))"
      using sweep_visit_static [of "envs i" s w] by simp
    then show ?thesis
      using sweep_loop_static [of envs "Suc i" ss "sweep_visit (envs i) s w"] 0 by auto
  next
    case (Suc k)
    with Cons.prems have "k < length ss"
      "us_userId (ss ! k) \<notin> processingUsers (sweep_visit (envs i) s w)"
      using sweep_visit_static [of "envs i" s w] by simp_all
    from Cons.IH [OF this] show ?thesis using Suc by simp
  qed
qed

lemma exists_userId_map:
  "(\<exists>r \<in> set rows. us_userId r = u) \<longleftrightarrow> u \<in> set (map us_userId rows)"
  by auto

lemma sweep_loop_advances:
  "j < length ss \<Longrightarrow> us_userId (ss ! j) = b \<Longrightarrow> b \<notin> processingUsers w \<Longrightarrow>
   \<not> rejects (getPlatforms_call (envs (i + j))) \<Longrightarrow>
   \<not> rejects (getUserSettings_call (envs (i + j))) \<Longrightarrow>
   \<not> rejects (updateUserSettings_call (envs (i + j))) \<Longrightarrow>
   \<exists>p \<in> set (platforms_rows w). pl_userId p = b \<Longrightarrow>
   b \<in> set (map us_userId (userSettings_rows w)) \<Longrightarrow>
   \<exists>tm. watermark (sweep_loop envs i ss w) b = Some tm \<and> clock w \<le> tm"
proof (induction ss arbitrary: i j w)
  case Nil
  then show ?case by simp
next
  case (Cons s ss)
  let ?w1 = "sweep_visit (envs i) s w"
  note st = sweep_visit_static [of "envs i" s w]
  show ?case
  proof (cases j)
    case 0
    with Cons.prems have "\<exists>tm. watermark ?w1 (us_userId s) = Some tm \<and> clock w \<le> tm"
      by (intro sweep_visit_advances) auto
    then obtain tm where tm: "watermark ?w1 b = Some tm" "clock w \<le> tm"
      using Cons.prems(2) 0 by auto
    have "clock w \<le> clock ?w1" using st by simp
    from sweep_loop_keeps_watermark [OF this tm] show ?thesis by simp
  next
    case (Suc k)
    have "\<exists>tm. watermark (sweep_loop envs (Suc i) ss ?w1) b = Some tm \<and> clock ?w1 \<le> tm"
      using Cons.prems Suc st by (intro Cons.IH [of k]) auto
    then show ?thesis using st by auto
  qed
qed


text \<open>
  C4. For an account with at least one connected platform and a settings row, a pipeline
  run whose three account-level statements execute (the two reads and the UPDATE of
  step 7) does not raise and sets \<open>lastCheckTime\<close> on every settings row of the account
  to the clock reading taken after all platforms were processed, a value at least the
  time before the run. Nothing is assumed about the fetch of a platform or about the
  calls made for a candidate: the fetch may fail or return no candidate at all, and each
  of those calls may fail.
\<close>

theorem watermark_advances:
  assumes "\<exists>p \<in> set (platforms_rows w). pl_userId p = u"
      and "\<exists>s \<in> set (userSettings_rows w). us_userId s = u"
      and "\<not> rejects (getPlatforms_call env)"
      and "\<not> rejects (getUserSettings_call env)"
      and "\<not> rejects (updateUserSettings_call env)"
  shows "fst (processUserReviews env u t l w) = Inr () \<and>
         (\<exists>tm. watermark (snd (processUserReviews env u t l w)) u = Some tm \<and>
               clock w \<le> tm \<and>
               clock (snd (processUserReviews env u t l w)) = tm + latency (updateUserSettings_call env) \<and>
               (\<forall>s \<in> set (userSettings_rows (snd (processUserReviews env u t l w))).
                   us_userId s = u \<longrightarrow> us_lastCheckTime s = Some tm))"
  using processUserReviews_advances [OF assms(3,4,5,1,2), of t l] by simp

theorem watermark_advances_witness:
  "watermark (snd (processUserReviews (account_ok (\<lambda>i. [])) ''alice'' ''Friendly'' ''English'' world1))
     ''alice'' = Some 1002 \<and>
   reviews_rows (snd (processUserReviews (account_ok (\<lambda>i. [])) ''alice'' ''Friendly'' ''English'' world1))
     = [] \<and>
   clock world1 = 1000 \<and>
   watermark (snd (processUserReviews (account_ok (\<lambda>i. [(candidate, review_down)])) ''alice''
                     ''Friendly'' ''English'' world1)) ''alice'' = Some 1003 \<and>
   watermark (snd (processUserReviews account_fetch_fails ''alice'' ''Friendly'' ''English'' world1))
     ''alice'' = Some 1002"
  using watermark_advances [where w = world1 and u = "''alice''" and env = "account_ok (\<lambda>i. [])"
       and t = "''Friendly''" and l = "''English''"]
    watermark_advances [where w = world1 and u = "''alice''"
       and env = "account_ok (\<lambda>i. [(candidate, review_down)])"
       and t = "''Friendly''" and l = "''English''"]
    watermark_advances [where w = world1 and u = "''alice''" and env = account_fetch_fails
       and t = "''Friendly''" and l = "''English''"]
  by (simp add: run_defs watermark_def review_down_def rejected_call_def account_fetch_fails_def)

lemma processAllUsers_eq:
  "processAllUsers env w =
     (Inr (), if rejects (select_call env) then elapse (latency (select_call env)) w
              else sweep_loop (account_envs env) 0 (filter us_autoReplyEnabled (userSettings_rows w))
                     (elapse (latency (select_call env)) w))"
  by (simp add: processAllUsers_def Let_def elapse_def)

text \<open>
  C5. In a sweep whose query executes, no outcome of one account's pipeline stops the
  loop: every account of the result whose id is not in \<open>processingUsers\<close> has its
  pipeline started (its console line is written), whatever the calls of the accounts
  before it answered, and an account with a connected platform whose own account-level
  statements execute has its watermark set to a time at least the start of the sweep.
  The sweep itself does not raise and leaves \<open>processingUsers\<close> as it found it.
\<close>

theorem sweep_isolation:
  assumes "\<not> rejects (select_call env)"
      and "j < length (filter us_autoReplyEnabled (userSettings_rows w))"
      and "us_userId (filter us_autoReplyEnabled (userSettings_rows w) ! j) = b"
      and "b \<notin> processingUsers w"
      and "\<exists>p \<in> set (platforms_rows w). pl_userId p = b"
      and "\<not> rejects (getPlatforms_call (account_envs env j))"
      and "\<not> rejects (getUserSettings_call (account_envs env j))"
      and "\<not> rejects (updateUserSettings_call (account_envs env j))"
  shows "fst (processAllUsers env w) = Inr () \<and>
         processingUsers (snd (processAllUsers env w)) = processingUsers w \<and>
         (\<forall>k < length (filter us_autoReplyEnabled (userSettings_rows w)).
            us_userId (filter us_autoReplyEnabled (userSettings_rows w) ! k) \<notin> processingUsers w \<longrightarrow>
            processing_line (us_userId (filter us_autoReplyEnabled (userSettings_rows w) ! k))
              \<in> set (console (snd (processAllUsers env w)))) \<and>
         (\<exists>tm. watermark (snd (processAllUsers env w)) b = Some tm \<and> clock w \<le> tm)"
proof -
  let ?ss = "filter us_autoReplyEnabled (userSettings_rows w)"
  let ?w1 = "elapse (latency (select_call env)) w"
  let ?w' = "sweep_loop (account_envs env) 0 ?ss ?w1"
  have w': "snd (processAllUsers env w) = ?w'"
    using assms(1) by (simp add: processAllUsers_eq)
  have 1: "processingUsers ?w' = processingUsers w"
    using sweep_loop_static [of "account_envs env" 0 ?ss ?w1] by (simp add: elapse_def)
  have 2: "processing_line (us_userId (?ss ! k)) \<in> set (console ?w')"
    if "k < length ?ss" "us_userId (?ss ! k) \<notin> processingUsers w" for k
    using sweep_loop_processes [of k ?ss ?w1 "account_envs env" 0] that by (simp add: elapse_def)
  have "?ss ! j \<in> set (userSettings_rows w)"
    using nth_mem [OF assms(2)] by simp
  then have b: "b \<in> set (map us_userId (userSettings_rows ?w1))"
    using assms(3) by (auto simp: elapse_def)
  have "\<exists>tm. watermark ?w' b = Some tm \<and> clock ?w1 \<le> tm"
    using assms b by (intro sweep_loop_advances [of j]) (simp_all add: elapse_def)
  then have 3: "\<exists>tm. watermark ?w' b = Some tm \<and> clock w \<le> tm"
    by (auto simp: elapse_def)
  show ?thesis
    using 1 2 3 assms(1) by (simp add: processAllUsers_eq)
qed

lemmas sweep_defs = processAllUsers_def sweep_visit_def alice_down_def account_down_def
  rejected_call_def

theorem sweep_isolation_witness:
  "watermark world1 ''bob'' = Some 500 \<and>
   watermark (snd (processAllUsers alice_down world1)) ''bob'' = Some 1004 \<and>
   watermark (snd (processAllUsers alice_down world1)) ''alice'' = Some 500 \<and>
   console (snd (processAllUsers alice_down world1)) =
     [processing_line ''alice'', processing_line ''bob''] \<and>
   processingUsers (snd (processAllUsers alice_down world1)) = {}"
  using sweep_isolation [where env = alice_down and w = world1 and j = 1 and b = "''bob''"]
  by (simp add: sweep_defs run_defs watermark_def)

section \<open>The guard\<close>



lemma checkUserReviewsNow_busy:
  "u \<in> processingUsers w \<Longrightarrow>
   checkUserReviewsNow m w u = (Inl (Error ''Already processing reviews for this user''), w)"
  by (simp add: checkUserReviewsNow_def)

lemma processingUsers_elapse [simp]: "processingUsers (elapse d w) = processingUsers w"
  by (simp add: elapse_def)


lemma checkUserReviewsNow_no_settings:
  assumes "u \<notin> processingUsers w" "\<not> rejects (settings_call m)"
      "\<forall>s \<in> set (userSettings_rows w). us_userId s \<noteq> u"
  shows "checkUserReviewsNow m w u =
           (Inl (Error ''User settings not found''), elapse (latency (settings_call m)) w)"
proof -
  have "filter (\<lambda>s. us_userId s = u) (userSettings_rows w) = []"
    using assms(3) by (simp add: filter_empty_conv)
  moreover have "w\<lparr>clock := clock w + latency (settings_call m), processingUsers := processingUsers w\<rparr>
      = w\<lparr>clock := clock w + latency (settings_call m)\<rparr>"
    by simp
  ultimately show ?thesis
    using assms(1,2)
    by (simp add: checkUserReviewsNow_def getUserSettings_def Let_def elapse_def)
qed

lemma checkUserReviewsNow_with_settings:
  assumes "u \<notin> processingUsers w" "\<not> rejects (settings_call m)"
      "\<exists>s \<in> set (userSettings_rows w). us_userId s = u"
  shows "\<exists>s :: user_settings. checkUserReviewsNow m w u =
           (Inr (), (snd (processUserReviews (pipeline_env m) u (us_defaultTone s) (us_language s)
                      (elapse (latency (settings_call m))
                         (w\<lparr>processingUsers := insert u (processingUsers w)\<rparr>))))
                    \<lparr>processingUsers := processingUsers w\<rparr>)"
proof -
  obtain s ss where f: "filter (\<lambda>s. us_userId s = u) (userSettings_rows w) = s # ss"
    using assms(3) by (cases "filter (\<lambda>s. us_userId s = u) (userSettings_rows w)")
      (auto simp: filter_empty_conv)
  let ?w2 = "elapse (latency (settings_call m)) (w\<lparr>processingUsers := insert u (processingUsers w)\<rparr>)"
  have "processingUsers (snd (processUserReviews (pipeline_env m) u (us_defaultTone s) (us_language s) ?w2))
        - {u} = processingUsers w"
    using processUserReviews_static [of "pipeline_env m" u "us_defaultTone s" "us_language s" ?w2]
      assms(1) by (simp add: elapse_def)
  then have "checkUserReviewsNow m w u =
           (Inr (), (snd (processUserReviews (pipeline_env m) u (us_defaultTone s) (us_language s) ?w2))
                    \<lparr>processingUsers := processingUsers w\<rparr>)"
    using assms(1,2) f
    by (simp add: checkUserReviewsNow_def getUserSettings_def Let_def elapse_def)
  then show ?thesis by (rule exI [of _ s])
qed



section \<open>Generation failure\<close>

lemma toneToUse_tone_name: "toneToUse (tone_name t) = t"
  by (cases t) (simp_all add: toneToUse_def validTones_def)

lemma tone_name_valid: "tone_name t \<in> set validTones"
  by (cases t) (simp_all add: validTones_def)

lemma generateResponse_never_raises:
  "\<exists>txt. fst (generateResponse c w rt sr tone lang) = Inr txt"
  by (simp add: generateResponse_def Let_def split: api_result.splits)

text \<open>
  C3 (as amended). \<open>generateResponse\<close> returns a text for every answer of the generator
  and never raises. For a candidate whose existence query executes and finds nothing, a
  failing generator call and an INSERT that executes, the pipeline appends one review row
  whose response text is the fallback template of the sentiment bucket (rating at least 4
  positive, at most 2 negative, else neutral) and of the requested tone when that is one
  of Friendly, Professional, Apologetic, Enthusiastic, and of the tone Professional for
  every other string.
\<close>

theorem generation_failure_falls_back:
  assumes "\<not> rejects (findMany_call e)"
      and "matching userId (sr_externalReviewId c) w = []"
      and "api_result (generate_call e) = ApiError"
      and "\<not> rejects (createReview_call e)"
  shows "(\<exists>txt. fst (generateResponse g w0 rt sr tone lang) = Inr txt) \<and>
         (\<exists>r. reviews_rows (processReview userId tone lang p (c, e) w) = reviews_rows w @ [r] \<and>
              rv_userId r = userId \<and>
              rv_externalReviewId r = Some (sr_externalReviewId c) \<and>
              rv_responseText r =
                Some (fallbackResponses (toneToUse tone)
                        (if sr_starRating c \<ge> 4 then Positive
                         else if sr_starRating c \<le> 2 then Negative else Neutral)) \<and>
              rv_responseTone r = tone \<and> rv_autoResponded r = Some True) \<and>
         (\<forall>t. tone = tone_name t \<longrightarrow> toneToUse tone = t) \<and>
         (tone \<notin> set validTones \<longrightarrow> toneToUse tone = Professional)"
proof -
  have s: "sentiment_of (sr_starRating c) =
        (if sr_starRating c \<ge> 4 then Positive
         else if sr_starRating c \<le> 2 then Negative else Neutral)"
    by (simp add: sentiment_of_def Let_def)
  have "\<exists>r. reviews_rows (processReview userId tone lang p (c, e) w) = reviews_rows w @ [r] \<and>
              rv_userId r = userId \<and>
              rv_externalReviewId r = Some (sr_externalReviewId c) \<and>
              rv_responseText r =
                Some (fallbackResponses (toneToUse tone) (sentiment_of (sr_starRating c))) \<and>
              rv_responseTone r = tone \<and> rv_autoResponded r = Some True"
    using assms
    by (simp add: processReview_def findMany_def generateResponse_def createReview_def Let_def
        elapse_def matching_def)
  then show ?thesis
    using generateResponse_never_raises [of g w0 rt sr tone lang]
    by (simp add: s toneToUse_tone_name) (simp add: toneToUse_def)
qed


theorem generation_failure_falls_back_witness:
  "(\<exists>r. reviews_rows (processReview ''alice'' ''Friendly'' ''English'' (platform_of 1 ''alice'')
                       (candidate, review_ok) world1) = [r] \<and>
        rv_responseText r = Some (fallbackResponses Friendly Positive) \<and>
        rv_responseTone r = ''Friendly'' \<and> rv_autoResponded r = Some True) \<and>
   toneToUse ''Friendly'' = Friendly \<and> toneToUse ''Casual'' = Professional"
proof -
  have h1: "\<not> rejects (findMany_call review_ok)"
    and h3: "api_result (generate_call review_ok) = ApiError"
    and h4: "\<not> rejects (createReview_call review_ok)"
    by (simp_all add: review_ok_def ok_call_def api_throws_def)
  have h2: "matching ''alice'' (sr_externalReviewId candidate) world1 = []"
    by (simp add: matching_def world1_def world0_def)
  have r: "sr_starRating candidate = 5" "reviews_rows world1 = []"
    by (simp_all add: candidate_def world1_def world0_def)
  have v: "''Casual'' \<notin> set validTones" "''Friendly'' = tone_name Friendly"
    by (simp_all add: validTones_def)
  note friendly = generation_failure_falls_back [OF h1 h2 h3 h4, where tone = "''Friendly''"
        and lang = "''English''" and p = "platform_of 1 ''alice''" and g = api_throws
        and ?w0.0 = world1 and rt = "''x''" and sr = 5]
  note casual = generation_failure_falls_back [OF h1 h2 h3 h4, where tone = "''Casual''"
        and lang = "''English''" and p = "platform_of 1 ''alice''" and g = api_throws
        and ?w0.0 = world1 and rt = "''x''" and sr = 5]
  from friendly v(2) have tf: "toneToUse ''Friendly'' = Friendly" by blast
  from casual v(1) have tc: "toneToUse ''Casual'' = Professional" by blast
  from friendly obtain r0 where
    "reviews_rows (processReview ''alice'' ''Friendly'' ''English'' (platform_of 1 ''alice'')
        (candidate, review_ok) world1) = reviews_rows world1 @ [r0]"
    "rv_responseText r0 = Some (fallbackResponses (toneToUse ''Friendly'')
        (if sr_starRating candidate \<ge> 4 then Positive
         else if sr_starRating candidate \<le> 2 then Negative else Neutral))"
    "rv_responseTone r0 = ''Friendly''" "rv_autoResponded r0 = Some True"
    by blast
  then have "reviews_rows (processReview ''alice'' ''Friendly'' ''English'' (platform_of 1 ''alice'')
        (candidate, review_ok) world1) = [r0] \<and>
        rv_responseText r0 = Some (fallbackResponses Friendly Positive) \<and>
        rv_responseTone r0 = ''Friendly'' \<and> rv_autoResponded r0 = Some True"
    by (simp add: r tf)
  then show ?thesis
    using tf tc by blast
qed

text \<open>
  C3 as stated fails for a tone outside the four: \<open>bob\<close>'s default tone is \<open>Casual\<close>, no
  template is keyed by that tone, and the row is written with the Professional template.
\<close>

theorem fallback_tone_counterexample:
  "map rv_responseTone
     (reviews_rows (snd (processUserReviews (account_ok one_candidate) ''bob'' ''Casual'' ''English''
                           world1))) = [''Casual''] \<and>
   map rv_responseText
     (reviews_rows (snd (processUserReviews (account_ok one_candidate) ''bob'' ''Casual'' ''English''
                           world1))) = [Some (fallbackResponses Professional Positive)] \<and>
   (\<forall>t. tone_name t \<noteq> ''Casual'')"
proof -
  have "tone_name t \<noteq> ''Casual''" for t
    by (cases t) simp_all
  then show ?thesis
    by (simp add: run_defs toneToUse_def validTones_def sentiment_of_def)
qed

section \<open>Missing prerequisites\<close>

lemma processUserReviews_early:
  assumes "(\<forall>p \<in> set (platforms_rows w). pl_userId p \<noteq> u) \<or>
           (\<forall>s \<in> set (userSettings_rows w). us_userId s \<noteq> u)"
  shows "reviews_rows (snd (processUserReviews env u t l w)) = reviews_rows w \<and>
         userSettings_rows (snd (processUserReviews env u t l w)) = userSettings_rows w"
proof -
  have e: "filter (\<lambda>p. pl_userId p = u) (platforms_rows w) = [] \<or>
           filter (\<lambda>s. us_userId s = u) (userSettings_rows w) = []"
    using assms by (auto simp: filter_empty_conv)
  show ?thesis
  proof (cases rule: processUserReviews_cases [of env u t l w])
    case (early w')
    then show ?thesis by (simp add: frame_def)
  next
    case (unstamped w2 w3)
    with e show ?thesis by simp
  next
    case (stamped w2 w3)
    with e show ?thesis by simp
  qed
qed


text \<open>
  C7 (as amended). The pipeline never raises. For an account with no connected platform
  or no settings row it creates no review and leaves the settings as they are, whatever
  the calls answer. The manual trigger, for an account that is not being processed and
  whose settings read executes, completes without raising and without creating reviews
  when the account has a settings row and no platform, and throws
  \<open>User settings not found\<close> when the account has no settings row.
\<close>

theorem missing_prerequisites:
  "fst (processUserReviews env u t l w) = Inr () \<and>
   ((\<forall>p \<in> set (platforms_rows w). pl_userId p \<noteq> u) \<or>
    (\<forall>s \<in> set (userSettings_rows w). us_userId s \<noteq> u) \<longrightarrow>
      reviews_rows (snd (processUserReviews env u t l w)) = reviews_rows w \<and>
      userSettings_rows (snd (processUserReviews env u t l w)) = userSettings_rows w) \<and>
   (u \<notin> processingUsers w \<and> \<not> rejects (settings_call m) \<and>
    (\<exists>s \<in> set (userSettings_rows w). us_userId s = u) \<and>
    (\<forall>p \<in> set (platforms_rows w). pl_userId p \<noteq> u) \<longrightarrow>
      fst (checkUserReviewsNow m w u) = Inr () \<and>
      reviews_rows (snd (checkUserReviewsNow m w u)) = reviews_rows w) \<and>
   (u \<notin> processingUsers w \<and> \<not> rejects (settings_call m) \<and>
    (\<forall>s \<in> set (userSettings_rows w). us_userId s \<noteq> u) \<longrightarrow>
      checkUserReviewsNow m w u =
        (Inl (Error ''User settings not found''), elapse (latency (settings_call m)) w))"
proof -
  have 1: "reviews_rows (snd (processUserReviews env u t l w)) = reviews_rows w \<and>
      userSettings_rows (snd (processUserReviews env u t l w)) = userSettings_rows w"
    if "(\<forall>p \<in> set (platforms_rows w). pl_userId p \<noteq> u) \<or>
        (\<forall>s \<in> set (userSettings_rows w). us_userId s \<noteq> u)"
    using that by (rule processUserReviews_early)
  have 2: "fst (checkUserReviewsNow m w u) = Inr () \<and>
      reviews_rows (snd (checkUserReviewsNow m w u)) = reviews_rows w"
    if a: "u \<notin> processingUsers w" "\<not> rejects (settings_call m)"
      "\<exists>s \<in> set (userSettings_rows w). us_userId s = u"
      "\<forall>p \<in> set (platforms_rows w). pl_userId p \<noteq> u"
  proof -
    let ?w2 = "elapse (latency (settings_call m)) (w\<lparr>processingUsers := insert u (processingUsers w)\<rparr>)"
    obtain s :: user_settings where s: "checkUserReviewsNow m w u =
           (Inr (), (snd (processUserReviews (pipeline_env m) u (us_defaultTone s) (us_language s) ?w2))
                    \<lparr>processingUsers := processingUsers w\<rparr>)"
      using checkUserReviewsNow_with_settings [OF a(1,2,3)] by blast
    have "reviews_rows (snd (processUserReviews (pipeline_env m) u (us_defaultTone s) (us_language s) ?w2))
          = reviews_rows ?w2"
      using a(4) processUserReviews_early [of ?w2 u "pipeline_env m" "us_defaultTone s" "us_language s"]
      by (simp add: elapse_def)
    then show ?thesis by (simp add: s elapse_def)
  qed
  show ?thesis
    using 1 2 checkUserReviewsNow_no_settings [of u w m] by simp
qed

theorem missing_prerequisites_witness:
  "fst (processUserReviews (account_ok one_candidate) ''carol'' ''Professional'' ''English'' world1)
     = Inr () \<and>
   reviews_rows (snd (processUserReviews (account_ok one_candidate) ''carol'' ''Professional''
                        ''English'' world1)) = [] \<and>
   fst (checkUserReviewsNow manual_ok (world1\<lparr>platforms_rows := []\<rparr>) ''alice'') = Inr () \<and>
   reviews_rows (snd (checkUserReviewsNow manual_ok (world1\<lparr>platforms_rows := []\<rparr>) ''alice'')) = [] \<and>
   fst (checkUserReviewsNow manual_ok world1 ''carol'') = Inl (Error ''User settings not found'')"
  using missing_prerequisites [where env = "account_ok one_candidate" and u = "''carol''"
      and t = "''Professional''" and l = "''English''" and w = world1 and m = manual_ok]
    missing_prerequisites [where env = "account_ok one_candidate" and u = "''alice''"
      and t = "''Professional''" and l = "''English''" and w = "world1\<lparr>platforms_rows := []\<rparr>"
      and m = manual_ok]
  by (simp add: world1_def world0_def settings_of_def platform_of_def manual_ok_def ok_call_def)

text \<open>
  C7 as stated fails on the manual path: \<open>carol\<close> has no settings row and is not being
  processed; the pipeline returns for her, the manual trigger throws.
\<close>

theorem manual_trigger_counterexample:
  "fst (getUserSettings ok_call world1 ''carol'') = Inr None \<and>
   ''carol'' \<notin> processingUsers world1 \<and>
   fst (processUserReviews (account_ok (\<lambda>i. [])) ''carol'' ''Professional'' ''English'' world1)
     = Inr () \<and>
   fst (checkUserReviewsNow manual_ok world1 ''carol'') = Inl (Error ''User settings not found'')"
  by (simp add: run_defs checkUserReviewsNow_def manual_ok_def)

lemma checkUserReviewsNow_fst_settings:
  assumes "u \<notin> processingUsers w" "\<not> rejects (settings_call m)"
      "\<exists>s \<in> set (userSettings_rows w). us_userId s = u"
  shows "fst (checkUserReviewsNow m w u) = Inr ()"
proof -
  obtain s ss where f: "filter (\<lambda>s. us_userId s = u) (userSettings_rows w) = s # ss"
    using assms(3) by (cases "filter (\<lambda>s. us_userId s = u) (userSettings_rows w)")
      (auto simp: filter_empty_conv)
  show ?thesis
    using assms(1,2) f
    by (simp add: checkUserReviewsNow_def getUserSettings_def Let_def elapse_def)
qed

section \<open>The endpoint\<close>

text \<open>
  C8 (as amended). For an authenticated request the endpoint answers 200 exactly when
  \<open>checkUserReviewsNow\<close> returns, and 500 with the message \<open>Failed to check for reviews\<close>
  whenever it throws, the busy error included: the busy condition gets the same response
  as every other failure. When the account is not being processed, its settings read
  executes and it has a settings row, the answer is 200 whatever the pipeline ingested.
\<close>

theorem check_reviews_status:
  assumes "u \<noteq> []"
  shows "(u \<in> processingUsers w \<longrightarrow>
            check_reviews_route m w (Some u) =
              (\<lparr>res_status = 500, res_message = ''Failed to check for reviews''\<rparr>, w)) \<and>
         (\<forall>e. fst (checkUserReviewsNow m w u) = Inl e \<longrightarrow>
            fst (check_reviews_route m w (Some u)) =
              \<lparr>res_status = 500, res_message = ''Failed to check for reviews''\<rparr>) \<and>
         (fst (checkUserReviewsNow m w u) = Inr () \<longrightarrow>
            fst (check_reviews_route m w (Some u)) =
              \<lparr>res_status = 200, res_message = ''Review check initiated''\<rparr>) \<and>
         (u \<notin> processingUsers w \<and> \<not> rejects (settings_call m) \<and>
          (\<exists>s \<in> set (userSettings_rows w). us_userId s = u) \<longrightarrow>
            fst (check_reviews_route m w (Some u)) =
              \<lparr>res_status = 200, res_message = ''Review check initiated''\<rparr>)"
proof -
  have 1: "fst (check_reviews_route m w (Some u)) =
              \<lparr>res_status = 500, res_message = ''Failed to check for reviews''\<rparr>"
    if "fst (checkUserReviewsNow m w u) = Inl e" for e
    using that assms by (cases "checkUserReviewsNow m w u") (simp add: check_reviews_route_def)
  have 2: "fst (check_reviews_route m w (Some u)) =
              \<lparr>res_status = 200, res_message = ''Review check initiated''\<rparr>"
    if "fst (checkUserReviewsNow m w u) = Inr ()"
    using that assms by (cases "checkUserReviewsNow m w u") (simp add: check_reviews_route_def)
  have 3: "check_reviews_route m w (Some u) =
              (\<lparr>res_status = 500, res_message = ''Failed to check for reviews''\<rparr>, w)"
    if "u \<in> processingUsers w"
    using assms by (simp add: check_reviews_route_def checkUserReviewsNow_busy [OF that])
  show ?thesis
    using 1 2 3 checkUserReviewsNow_fst_settings [of u w m] by blast
qed

theorem check_reviews_status_witness:
  "check_reviews_route manual_ok world_busy (Some ''alice'') =
     (\<lparr>res_status = 500, res_message = ''Failed to check for reviews''\<rparr>, world_busy) \<and>
   fst (check_reviews_route manual_ok world_busy (Some ''carol'')) =
     \<lparr>res_status = 500, res_message = ''Failed to check for reviews''\<rparr> \<and>
   fst (check_reviews_route manual_ok world_busy (Some ''bob'')) =
     \<lparr>res_status = 200, res_message = ''Review check initiated''\<rparr>"
proof -
  have a: "''alice'' \<noteq> []" "''carol'' \<noteq> []" "''bob'' \<noteq> []" by simp_all
  have b: "''alice'' \<in> processingUsers world_busy" "''bob'' \<notin> processingUsers world_busy"
    "\<not> rejects (settings_call manual_ok)" "\<exists>s \<in> set (userSettings_rows world_busy). us_userId s = ''bob''"
    by (simp_all add: world_busy_def world1_def world0_def manual_ok_def ok_call_def settings_of_def)
  have c: "fst (checkUserReviewsNow manual_ok world_busy ''carol'') = Inl (Error ''User settings not found'')"
    by (simp add: world_busy_def run_defs checkUserReviewsNow_def manual_ok_def)
  show ?thesis
    using check_reviews_status [OF a(1), of world_busy manual_ok]
      check_reviews_status [OF a(2), of world_busy manual_ok]
      check_reviews_status [OF a(3), of world_busy manual_ok] b c
    by blast
qed

text \<open>
  C8 as stated fails: the busy error for \<open>alice\<close> and the missing-settings error for
  \<open>carol\<close> get the same response, status 500.
\<close>

theorem busy_status_counterexample:
  "fst (checkUserReviewsNow manual_ok world_busy ''alice'') =
     Inl (Error ''Already processing reviews for this user'') \<and>
   fst (checkUserReviewsNow manual_ok world_busy ''carol'') = Inl (Error ''User settings not found'') \<and>
   fst (check_reviews_route manual_ok world_busy (Some ''alice'')) =
     fst (check_reviews_route manual_ok world_busy (Some ''carol'')) \<and>
   res_status (fst (check_reviews_route manual_ok world_busy (Some ''alice''))) = 500"
  by (simp add: check_reviews_route_def world_busy_def run_defs checkUserReviewsNow_def manual_ok_def)

section \<open>Creating settings on update\<close>

text \<open>
  C9 (as amended). For a userId with no settings row, when the UPDATE and the INSERT
  execute, \<open>updateUserSettings\<close> appends one row and returns it. Its userId is the
  argument; tone and language are the provided strings when these are non-empty and
  \<open>Professional\<close> and \<open>English\<close> when they are absent or empty; \<open>autoReplyEnabled\<close> is
  the provided value, or false; \<open>lastCheckTime\<close> is the provided time, or the current
  time when it is absent or null.
\<close>

theorem updateUserSettings_creates:
  assumes "\<forall>s \<in> set (userSettings_rows w). us_userId s \<noteq> u"
      and "\<not> rejects cu" and "\<not> rejects ci"
  shows "\<exists>row w'. updateUserSettings cu ci w u p = (Inr row, w') \<and>
           userSettings_rows w' = userSettings_rows w @ [row] \<and>
           us_userId row = u \<and>
           us_defaultTone row =
             (case pus_defaultTone p of None \<Rightarrow> ''Professional''
              | Some t \<Rightarrow> if t = [] then ''Professional'' else t) \<and>
           us_language row =
             (case pus_language p of None \<Rightarrow> ''English''
              | Some l \<Rightarrow> if l = [] then ''English'' else l) \<and>
           us_autoReplyEnabled row = (case pus_autoReplyEnabled p of None \<Rightarrow> False | Some b \<Rightarrow> b) \<and>
           us_lastCheckTime row =
             Some (case pus_lastCheckTime p of Some (Some t) \<Rightarrow> t | _ \<Rightarrow> clock w + latency cu)"
proof -
  have "filter (\<lambda>s. us_userId s = u) (userSettings_rows w) = []"
    using assms(1) by (simp add: filter_empty_conv)
  moreover have "map (\<lambda>s. if us_userId s = u then set_user_settings p (clock w) s else s)
                   (userSettings_rows w) = userSettings_rows w"
    using assms(1) by (induction "userSettings_rows w") (auto simp: map_idI)
  ultimately show ?thesis
    using assms(2,3)
    by (simp add: updateUserSettings_def createUserSettings_def Let_def elapse_def or_string_def
        split: option.splits)
qed


theorem updateUserSettings_creates_witness:
  "\<exists>row w'. updateUserSettings ok_call ok_call world1 ''carol'' friendly_patch = (Inr row, w') \<and>
      userSettings_rows w' = userSettings_rows world1 @ [row] \<and>
      us_userId row = ''carol'' \<and> us_defaultTone row = ''Friendly'' \<and>
      us_language row = ''English'' \<and> us_autoReplyEnabled row \<and>
      us_lastCheckTime row = Some 1001"
proof -
  have h: "\<forall>s \<in> set (userSettings_rows world1). us_userId s \<noteq> ''carol''"
    "\<not> rejects ok_call"
    by (simp_all add: world1_def world0_def settings_of_def ok_call_def)
  from updateUserSettings_creates [OF h(1) h(2) h(2), where p = friendly_patch]
  obtain row w' where r:
    "updateUserSettings ok_call ok_call world1 ''carol'' friendly_patch = (Inr row, w')"
    "userSettings_rows w' = userSettings_rows world1 @ [row]"
    "us_userId row = ''carol''"
    "us_defaultTone row =
       (case pus_defaultTone friendly_patch of None \<Rightarrow> ''Professional''
        | Some t \<Rightarrow> if t = [] then ''Professional'' else t)"
    "us_language row =
       (case pus_language friendly_patch of None \<Rightarrow> ''English''
        | Some l \<Rightarrow> if l = [] then ''English'' else l)"
    "us_autoReplyEnabled row =
       (case pus_autoReplyEnabled friendly_patch of None \<Rightarrow> False | Some b \<Rightarrow> b)"
    "us_lastCheckTime row =
       Some (case pus_lastCheckTime friendly_patch of Some (Some t) \<Rightarrow> t
             | _ \<Rightarrow> clock world1 + latency ok_call)"
    by blast
  show ?thesis
  proof (intro exI [of _ row] exI [of _ w'] conjI)
    show "updateUserSettings ok_call ok_call world1 ''carol'' friendly_patch = (Inr row, w')"
      by (rule r(1))
    show "userSettings_rows w' = userSettings_rows world1 @ [row]"
      by (rule r(2))
    show "us_userId row = ''carol''"
      by (rule r(3))
    show "us_defaultTone row = ''Friendly''"
      using r(4) by (simp add: friendly_patch_def)
    show "us_language row = ''English''"
      using r(5) by (simp add: friendly_patch_def)
    show "us_autoReplyEnabled row"
      using r(6) by (simp add: friendly_patch_def)
    show "us_lastCheckTime row = Some 1001"
      using r(7) by (simp add: friendly_patch_def world1_def world0_def ok_call_def)
  qed
qed

text \<open>
  C9 as stated fails for a provided value that is the empty string: the row gets the
  default tone, not the provided one.
\<close>

theorem empty_tone_counterexample:
  "pus_defaultTone empty_tone_patch = Some [] \<and>
   fst (getUserSettings ok_call world1 ''carol'') = Inr None \<and>
   (\<exists>row w'. updateUserSettings ok_call ok_call world1 ''carol'' empty_tone_patch = (Inr row, w') \<and>
       us_defaultTone row = ''Professional'')"
  by (simp add: updateUserSettings_def createUserSettings_def getUserSettings_def Let_def
      elapse_def or_string_def empty_tone_patch_def world1_def world0_def ok_call_def
      settings_of_def)

section \<open>Deleting rows\<close>



lemma referenced_platform_elapse [simp]:
  "referenced_platform (elapse d w) i = referenced_platform w i"
  by (simp add: referenced_platform_def elapse_def)






end
